theory Spec2Isabelle
  imports Main "HOL-Library.Word"
begin

unbundle bit_operations_syntax

section \<open>Failures\<close>

text \<open>
  The host code stops in two ways.  \<open>M_insist\<close>, \<open>M_unreachable\<close> and \<open>abort()\<close> end the
  process (the model follows a build in which \<open>M_insist\<close> is evaluated); a C++ exception
  (\<open>m::wasm::exception\<close>, \<open>std::logic_error\<close>) unwinds to the caller.
\<close>

datatype error =
    Insist_failed string
  | Wasm_exception nat string
  | Logic_error string

definition err_bind :: "error + 'a \<Rightarrow> ('a \<Rightarrow> error + 'b) \<Rightarrow> error + 'b" where
  "err_bind m f = (case m of Inl e \<Rightarrow> Inl e | Inr x \<Rightarrow> f x)"

definition M_insist :: "bool \<Rightarrow> string \<Rightarrow> error + unit" where
  "M_insist c msg = (if c then Inr () else Inl (Insist_failed msg))"

section \<open>Text output of integers\<close>

text \<open>\<open>operator<<\<close> on an unsigned integer: its decimal digits.\<close>

fun show_nat :: "nat \<Rightarrow> string" where
  "show_nat n =
     (if n < 10 then [''0123456789'' ! n]
      else show_nat (n div 10) @ [''0123456789'' ! (n mod 10)])"

declare show_nat.simps [simp del]

text \<open>
  \<open>operator<<\<close> on a signed integer under \<open>std::internal\<close>, fill character \<open>'0'\<close> and
  \<open>std::setw(w)\<close>: the sign, then the padding, then the digits; a number that needs more
  than \<open>w\<close> columns is not cut.  Width \<open>0\<close> is the plain rendering.
\<close>

definition put_int :: "nat \<Rightarrow> int \<Rightarrow> string" where
  "put_int w i =
     (if i < 0
      then CHR ''-'' # replicate (w - Suc (length (show_nat (nat (- i))))) CHR ''0''
             @ show_nat (nat (- i))
      else replicate (w - length (show_nat (nat i))) CHR ''0'' @ show_nat (nat i))"

section \<open>Types, values and constants\<close>

datatype numeric_kind = N_Int | N_Decimal | N_Float

datatype ty =
    NoneType
  | Boolean
  | Numeric numeric_kind nat
  | CharacterSequence
  | Date
  | DateTime
  | OtherType

definition is_none :: "ty \<Rightarrow> bool" where
  "is_none t = (t = NoneType)"

text \<open>
  Modelled from the spec: \<open>m::Value\<close> is missing from the sources.  A value is one of the
  alternatives its accessors \<open>as_b\<close>, \<open>as_i\<close>, \<open>as_f\<close>, \<open>as_d\<close>, \<open>as_p\<close> read; reading another
  alternative than the stored one is a failed check.  Floating point numbers are kept as
  their bit patterns.
\<close>

datatype val =
    V_b bool
  | V_i "64 word"
  | V_f "32 word"
  | V_d "64 word"
  | V_p string

fun as_b :: "val \<Rightarrow> error + bool" where
  "as_b (V_b b) = Inr b"
| "as_b _ = Inl (Insist_failed ''value is not a bool'')"

fun as_i :: "val \<Rightarrow> error + 64 word" where
  "as_i (V_i i) = Inr i"
| "as_i _ = Inl (Insist_failed ''value is not an integer'')"

fun as_f :: "val \<Rightarrow> error + 32 word" where
  "as_f (V_f f) = Inr f"
| "as_f _ = Inl (Insist_failed ''value is not a float'')"

fun as_d :: "val \<Rightarrow> error + 64 word" where
  "as_d (V_d d) = Inr d"
| "as_d _ = Inl (Insist_failed ''value is not a double'')"

fun as_p :: "val \<Rightarrow> error + string" where
  "as_p (V_p s) = Inr s"
| "as_p _ = Inl (Insist_failed ''value is not a pointer'')"

text \<open>
  Expressions of the AST.  Modelled from the spec: \<open>ast::Constant\<close> and
  \<open>Interpreter::eval\<close> are missing from the sources.  A constant carries the value it
  evaluates to; the literal \<open>NULL\<close> carries none and cannot be evaluated.
\<close>

datatype expr =
    ErrorExpr
  | Designator string
  | Constant "val option"
  | FnApplicationExpr "expr list"
  | UnaryExpr expr
  | BinaryExpr expr expr
  | QueryExpr

definition eval :: "val option \<Rightarrow> error + val" where
  "eval c = (case c of None \<Rightarrow> Inl (Insist_failed ''NULL cannot be evaluated'')
                     | Some v \<Rightarrow> Inr v)"

definition is_string :: "val option \<Rightarrow> bool" where
  "is_string c = (case c of Some (V_p s) \<Rightarrow> True | _ \<Rightarrow> False)"

text \<open>\<open>as<const ast::Constant>(e)\<close>: a checked cast.\<close>

definition as_Constant :: "expr \<Rightarrow> error + val option" where
  "as_Constant e = (case e of Constant c \<Rightarrow> Inr c
                            | _ \<Rightarrow> Inl (Insist_failed ''not a constant''))"

section \<open>Printing a constant\<close>

text \<open>
  The renderings of \<open>float\<close>, \<open>double\<close> and of a broken-down UTC time come from the C++
  library; they are parameters.
\<close>

record formatters =
  put_float :: "32 word \<Rightarrow> string"
  put_double :: "64 word \<Rightarrow> string"
  put_tm :: "64 word \<Rightarrow> string"

text \<open>
  The \<open>Date\<close> branch of \<open>print_constant\<close>: \<open>date\<close> is an \<open>int32_t\<close>, \<open>date >> 9\<close> is the
  arithmetic shift, and each \<open>std::setw\<close> holds for the next number only.
\<close>

definition print_date :: "32 word \<Rightarrow> string" where
  "print_date date =
     put_int (if 0 < sint (signed_drop_bit 9 date) then 4 else 5) (sint (signed_drop_bit 9 date))
     @ ''-'' @ put_int 2 (sint (signed_drop_bit 5 date AND 0xF))
     @ ''-'' @ put_int 2 (sint (date AND 0x1F))"

text \<open>Rendering an evaluated value of a type that is not \<open>NoneType\<close>.\<close>

fun print_value :: "formatters \<Rightarrow> val \<Rightarrow> ty \<Rightarrow> error + string" where
  "print_value fmt v Boolean =
     err_bind (as_b v) (\<lambda>b. Inr (if b then ''TRUE'' else ''FALSE''))"
| "print_value fmt v (Numeric N_Int n) = err_bind (as_i v) (\<lambda>i. Inr (put_int 0 (sint i)))"
| "print_value fmt v (Numeric N_Decimal n) = err_bind (as_i v) (\<lambda>i. Inr (put_int 0 (sint i)))"
| "print_value fmt v (Numeric N_Float n) =
     (if n \<le> 32 then err_bind (as_f v) (\<lambda>f. Inr (put_float fmt f))
      else err_bind (as_d v) (\<lambda>d. Inr (put_double fmt d)))"
| "print_value fmt v CharacterSequence =
     err_bind (as_p v) (\<lambda>s. Inr (CHR 0x22 # s @ [CHR 0x22]))"
| "print_value fmt v Date = err_bind (as_i v) (\<lambda>i. Inr (print_date (ucast i)))"
| "print_value fmt v DateTime = err_bind (as_i v) (\<lambda>i. Inr (put_tm fmt i))"
| "print_value fmt v NoneType = Inl (Insist_failed ''should've been handled earlier'')"
| "print_value fmt v OtherType = Inl (Insist_failed ''invalid type'')"

definition print_constant :: "formatters \<Rightarrow> val option \<Rightarrow> ty \<Rightarrow> error + string" where
  "print_constant fmt c t =
     (if is_none t then Inr ''NULL''
      else err_bind (eval c) (\<lambda>v. print_value fmt v t))"

text \<open>The packing of a date the spec gives: \<open>year<<9 | month<<5 | day\<close>, in 32 bits.\<close>

definition encode_date :: "int \<Rightarrow> nat \<Rightarrow> nat \<Rightarrow> 32 word" where
  "encode_date y m d = push_bit 9 (word_of_int y) OR push_bit 5 (word_of_nat m) OR word_of_nat d"

text \<open>A decimal number padded with zeros on its left to \<open>w\<close> digits.\<close>

definition zero_pad :: "nat \<Rightarrow> nat \<Rightarrow> string" where
  "zero_pad w n = replicate (w - length (show_nat n)) CHR ''0'' @ show_nat n"

section \<open>Schemas\<close>

text \<open>
  Modelled from the spec: \<open>Schema\<close> and \<open>Schema::Identifier\<close> are missing from the sources.
  A schema is an ordered sequence of entries, each with an identifier and a type; the
  identifier carries the constant marker that \<open>id.is_constant()\<close> reads.
\<close>

datatype ident = Identifier (id_prefix: "string option") (id_name: string) (is_constant: bool)

datatype entry = Entry (entry_id: ident) (entry_ty: ty)

type_synonym schema = "entry list"

definition num_entries :: "schema \<Rightarrow> nat" where
  "num_entries s = length s"

definition has :: "schema \<Rightarrow> ident \<Rightarrow> bool" where
  "has s i = (i \<in> entry_id ` set s)"

text \<open>\<open>deduplicate\<close>: duplicate identifiers collapsed, the first occurrence wins.\<close>

fun deduplicate_into :: "schema \<Rightarrow> schema \<Rightarrow> schema" where
  "deduplicate_into res [] = res"
| "deduplicate_into res (e # es) =
     deduplicate_into (if has res (entry_id e) then res else res @ [e]) es"

definition deduplicate :: "schema \<Rightarrow> schema" where
  "deduplicate s = deduplicate_into [] s"

text \<open>\<open>drop_constants\<close>: the constant entries removed.\<close>

definition drop_constants :: "schema \<Rightarrow> schema" where
  "drop_constants s = filter (\<lambda>e. \<not> is_constant (entry_id e)) s"

section \<open>Operators of the matched plan\<close>

type_synonym cnf = "expr list list"

datatype op_kind =
    ScanOperator string
  | CallbackOperator
  | PrintOperator
  | NoOpOperator
  | FilterOperator cnf
  | DisjunctiveFilterOperator cnf
  | JoinOperator cnf
  | ProjectionOperator "(expr \<times> string option) list"
  | LimitOperator
  | GroupingOperator "(expr \<times> string option) list"
  | AggregationOperator
  | SortingOperator

datatype operator = Operator (kind: op_kind) (schema: schema) (children: "operator list")

section \<open>Collecting the string literals of a plan\<close>

text \<open>
  \<open>literals_\<close> is an unordered set of pooled strings; \<open>emplace\<close> keeps one copy.  The
  model records the insertions in their order, each element once.  The order in which
  \<open>Collect\<close> then reads the set, from \<open>begin()\<close> to \<open>end()\<close>, is that of the standard
  library and the hashes of the elements; the code does not fix it.  It is a parameter:
  an \<open>iteration\<close> maps the sequence of insertions to the sequence in which the elements
  are read.
\<close>

type_synonym iteration = "string list \<Rightarrow> string list"

definition emplace :: "string \<Rightarrow> string list \<Rightarrow> string list" where
  "emplace s ls = (if s \<in> set ls then ls else ls @ [s])"

fun visit_expr :: "expr \<Rightarrow> string list \<Rightarrow> error + string list" where
  "visit_expr ErrorExpr ls = Inl (Insist_failed ''no errors at this stage'')"
| "visit_expr (Designator d) ls = Inr ls"
| "visit_expr (Constant c) ls =
     (if is_string c
      then err_bind (eval c) (\<lambda>s. err_bind (as_p s) (\<lambda>p. Inr (emplace p ls)))
      else Inr ls)"
| "visit_expr (FnApplicationExpr args) ls = Inr ls"
| "visit_expr (UnaryExpr e) ls = visit_expr e ls"
| "visit_expr (BinaryExpr l r) ls = err_bind (visit_expr l ls) (visit_expr r)"
| "visit_expr QueryExpr ls = Inr ls"

fun visit_exprs :: "expr list \<Rightarrow> string list \<Rightarrow> error + string list" where
  "visit_exprs [] ls = Inr ls"
| "visit_exprs (e # es) ls = err_bind (visit_expr e ls) (visit_exprs es)"

fun visit_cnf :: "cnf \<Rightarrow> string list \<Rightarrow> error + string list" where
  "visit_cnf [] ls = Inr ls"
| "visit_cnf (clause # cs) ls = err_bind (visit_exprs clause ls) (visit_cnf cs)"

fun visit_kind :: "op_kind \<Rightarrow> string list \<Rightarrow> error + string list" where
  "visit_kind (FilterOperator f) ls = visit_cnf f ls"
| "visit_kind (DisjunctiveFilterOperator f) ls = visit_cnf f ls"
| "visit_kind (JoinOperator p) ls = visit_cnf p ls"
| "visit_kind (ProjectionOperator ps) ls = visit_exprs (map fst ps) ls"
| "visit_kind (GroupingOperator gs) ls = visit_exprs (map fst gs) ls"
| "visit_kind k ls = Inr ls"

fun is_Consumer :: "op_kind \<Rightarrow> bool" where
  "is_Consumer (ScanOperator t) = False"
| "is_Consumer k = True"

fun visit_op :: "operator \<Rightarrow> string list \<Rightarrow> error + string list"
  and recurse :: "operator list \<Rightarrow> string list \<Rightarrow> error + string list" where
  "visit_op (Operator k s cs) ls =
     err_bind (visit_kind k ls) (\<lambda>ls'. if is_Consumer k then recurse cs ls' else Inr ls')"
| "recurse [] ls = Inr ls"
| "recurse (c # cs) ls = err_bind (visit_op c ls) (recurse cs)"

definition Collect_literals :: "iteration \<Rightarrow> operator \<Rightarrow> error + string list" where
  "Collect_literals iter plan = err_bind (visit_op plan []) (\<lambda>ls. Inr (iter ls))"

section \<open>Indexes\<close>

text \<open>
  Modelled from the spec: the index classes \<open>idx::ArrayIndex\<close> and
  \<open>idx::RecursiveModelIndex\<close> are missing from the sources.  An index handle is a pair of
  kind and key type with its (key, tuple-id) entries in key order.  Iterators are
  positions in the entries, \<open>begin()\<close> is position 0, and \<open>lower_bound\<close> and \<open>upper_bound\<close>
  are the binary searches of \<open>std::lower_bound\<close> and \<open>std::upper_bound\<close> over the keys.
\<close>

datatype index_kind = ArrayIndex | RecursiveModelIndex

datatype key_type = Key_b | Key_i1 | Key_i2 | Key_i4 | Key_i8 | Key_f | Key_d | Key_p

record 'k index =
  idx_kind :: index_kind
  idx_key_type :: key_type
  idx_entries :: "('k \<times> nat) list"

function lower_bound_from :: "'k::linorder list \<Rightarrow> 'k \<Rightarrow> nat \<Rightarrow> nat \<Rightarrow> nat" where
  "lower_bound_from ks key first count =
     (if count = 0 then first
      else let step = count div 2; it = first + step
           in if ks ! it < key then lower_bound_from ks key (Suc it) (count - Suc step)
              else lower_bound_from ks key first step)"
  by pat_completeness auto
termination
  by (relation "measure (\<lambda>(ks, key, first, count). count)") auto

function upper_bound_from :: "'k::linorder list \<Rightarrow> 'k \<Rightarrow> nat \<Rightarrow> nat \<Rightarrow> nat" where
  "upper_bound_from ks key first count =
     (if count = 0 then first
      else let step = count div 2; it = first + step
           in if \<not> key < ks ! it then upper_bound_from ks key (Suc it) (count - Suc step)
              else upper_bound_from ks key first step)"
  by pat_completeness auto
termination
  by (relation "measure (\<lambda>(ks, key, first, count). count)") auto

declare lower_bound_from.simps [simp del] upper_bound_from.simps [simp del]

definition begin_pos :: "'k index \<Rightarrow> nat" where
  "begin_pos index = 0"

definition lower_bound :: "'k::linorder index \<Rightarrow> 'k \<Rightarrow> nat" where
  "lower_bound index key =
     lower_bound_from (map fst (idx_entries index)) key 0 (length (idx_entries index))"

definition upper_bound :: "'k::linorder index \<Rightarrow> 'k \<Rightarrow> nat" where
  "upper_bound index key =
     upper_bound_from (map fst (idx_entries index)) key 0 (length (idx_entries index))"

text \<open>\<open>std::distance(a, b)\<close> for a position \<open>b\<close> that is not before \<open>a\<close>.\<close>

definition distance :: "nat \<Rightarrow> nat \<Rightarrow> nat" where
  "distance a b = b - a"

section \<open>The Wasm context and its registry\<close>

text \<open>
  Modelled from the spec: \<open>WasmEngine::WasmContext\<close>, the data layout factory and
  \<open>Interpreter::compile_load\<close> are missing from the sources.  The arena \<open>vm\<close> is a map
  from byte offsets to bytes.  A layout, made by the result-set factory for a schema, is
  what the loader reads the result buffer by: applied to the arena, the offset of the
  buffer, a row and a column, it is the value stored there, or \<open>None\<close> for NULL.
\<close>

type_synonym memory = "nat \<Rightarrow> char"

type_synonym layout = "memory \<Rightarrow> nat \<Rightarrow> nat \<Rightarrow> nat \<Rightarrow> val option"

record 'k wasm_context =
  ctx_id :: nat
  plan :: operator
  vm :: memory
  heap :: nat
  TRAP_GUARD_PAGES :: bool
  indexes :: "'k index list"
  result_set_factory :: "(schema \<Rightarrow> layout) option"

text \<open>
  Modelled from the spec: the registry of \<open>WasmEngine\<close> is missing from the sources.  It
  maps a module id to its context; \<open>get\<close> of an id that is not live is fatal, \<open>create\<close>
  of a live id and \<open>dispose\<close> of an id that is not live fail their checks.
\<close>

type_synonym 'k registry = "nat \<rightharpoonup> 'k wasm_context"

definition Get_Wasm_Context_By_ID :: "'k registry \<Rightarrow> nat \<Rightarrow> error + 'k wasm_context" where
  "Get_Wasm_Context_By_ID contexts i =
     (case contexts i of
        None \<Rightarrow> Inl (Insist_failed ''There is no context with the given ID'')
      | Some c \<Rightarrow> Inr c)"

definition Create_Wasm_Context_For_ID ::
  "'k registry \<Rightarrow> nat \<Rightarrow> operator \<Rightarrow> bool \<Rightarrow> error + 'k registry" where
  "Create_Wasm_Context_For_ID contexts i p cfg =
     (case contexts i of
        Some c \<Rightarrow> Inl (Insist_failed ''WasmContext with that ID already exists'')
      | None \<Rightarrow>
          Inr (contexts(i \<mapsto>
            \<lparr>ctx_id = i, plan = p, vm = (\<lambda>a. CHR 0x00), heap = 0, TRAP_GUARD_PAGES = cfg,
             indexes = [], result_set_factory = None\<rparr>)))"

definition Dispose_Wasm_Context :: "'k registry \<Rightarrow> nat \<Rightarrow> error + 'k registry" where
  "Dispose_Wasm_Context contexts i =
     (case contexts i of
        None \<Rightarrow> Inl (Insist_failed ''There is no context with the given ID to erase'')
      | Some c \<Rightarrow> Inr (contexts(i := None)))"

section \<open>Index seek\<close>

text \<open>
  \<open>index_seek<Index, V8ValueT, IsLower>\<close>.  The template arguments are the index kind and
  key type of \<open>Index\<close>; the key is the value after its conversion to \<open>key_type\<close>.  An index
  id beyond the vector, undefined in the source, stops the model.
\<close>

definition index_seek ::
  "index_kind \<Rightarrow> key_type \<Rightarrow> bool \<Rightarrow> 'k::linorder registry \<Rightarrow> nat \<Rightarrow> nat \<Rightarrow> 'k
     \<Rightarrow> error + 32 word" where
  "index_seek IDX KEY IsLower contexts module_id index_id key =
     err_bind (Get_Wasm_Context_By_ID contexts module_id) (\<lambda>context.
     err_bind (M_insist (index_id < length (indexes context)) ''no such index'') (\<lambda>_.
     let index = indexes context ! index_id in
     err_bind (M_insist (idx_kind index = IDX \<and> idx_key_type index = KEY) ''as: wrong type'')
       (\<lambda>_.
     let offset = distance (begin_pos index)
                    (if IsLower then lower_bound index key else upper_bound index key) in
     err_bind (M_insist (offset < 2 ^ 32) ''should fit in uint32_t'') (\<lambda>_.
     Inr (word_of_nat offset)))))"

section \<open>Mapping the string literals into the arena\<close>

definition NUL :: char where
  "NUL = CHR 0x00"

text \<open>A C string ends at its first NUL.\<close>

definition c_str :: "string \<Rightarrow> string" where
  "c_str s = takeWhile (\<lambda>c. c \<noteq> NUL) s"

definition strlen :: "string \<Rightarrow> nat" where
  "strlen s = length (c_str s)"

fun write_bytes :: "memory \<Rightarrow> nat \<Rightarrow> string \<Rightarrow> memory" where
  "write_bytes mem a [] = mem"
| "write_bytes mem a (c # cs) = write_bytes (mem(a := c)) (Suc a) cs"

text \<open>\<open>stpcpy\<close> copies the string with its NUL and returns where the NUL went.\<close>

definition stpcpy :: "memory \<Rightarrow> nat \<Rightarrow> string \<Rightarrow> memory \<times> nat" where
  "stpcpy mem dst src = (write_bytes mem dst (c_str src @ [NUL]), dst + strlen src)"

text \<open>An anonymous fixed mapping: fresh pages of zero bytes over the range.\<close>

definition mmap_anon :: "memory \<Rightarrow> nat \<Rightarrow> nat \<Rightarrow> memory" where
  "mmap_anon mem addr len = (\<lambda>a. if addr \<le> a \<and> a < addr + len then NUL else mem a)"

text \<open>
  The page size, the mapping of a table and the row count of its store come from outside
  the sources; they are parameters, and so are the orders in which the unordered sets of
  the collected literals and of the collected tables are read.
\<close>

record 'k storage =
  pagesize :: nat
  map_table :: "string \<Rightarrow> 'k wasm_context \<Rightarrow> 'k wasm_context \<times> nat"
  table_num_rows :: "string \<Rightarrow> nat"
  literal_iteration :: iteration
  table_iteration :: iteration

definition Is_Page_Aligned :: "nat \<Rightarrow> nat \<Rightarrow> bool" where
  "Is_Page_Aligned P n = (n mod P = 0)"

definition Ceil_To_Next_Page :: "nat \<Rightarrow> nat \<Rightarrow> nat" where
  "Ceil_To_Next_Page P n = ((n + P - 1) div P) * P"

text \<open>
  Modelled from the spec: \<open>install_guard_page\<close> is missing from the sources.  With
  \<open>TRAP_GUARD_PAGES\<close> the appended region is followed by one unmapped page.
\<close>

definition install_guard_page :: "nat \<Rightarrow> 'k wasm_context \<Rightarrow> 'k wasm_context" where
  "install_guard_page P context =
     (if TRAP_GUARD_PAGES context then context\<lparr>heap := heap context + P\<rparr> else context)"

text \<open>
  \<open>CollectTables\<close>: the names of the tables the scans of the plan read, each once, in an
  unordered set that \<open>Collect\<close> reads from \<open>begin()\<close> to \<open>end()\<close>.
\<close>

fun collect_tables :: "operator \<Rightarrow> string list \<Rightarrow> string list"
  and recurse_tables :: "operator list \<Rightarrow> string list \<Rightarrow> string list" where
  "collect_tables (Operator k s cs) ts =
     (case k of ScanOperator t \<Rightarrow> emplace t ts | _ \<Rightarrow> recurse_tables cs ts)"
| "recurse_tables [] ts = ts"
| "recurse_tables (c # cs) ts = recurse_tables cs (collect_tables c ts)"

definition Collect_tables :: "iteration \<Rightarrow> operator \<Rightarrow> string list" where
  "Collect_tables iter p = iter (collect_tables p [])"

text \<open>The first loop of \<open>create_env\<close>: each table is mapped and announced in \<open>env\<close>.\<close>

fun map_tables ::
  "'k storage \<Rightarrow> string list \<Rightarrow> 'k wasm_context \<times> (string \<times> nat) list
     \<Rightarrow> 'k wasm_context \<times> (string \<times> nat) list" where
  "map_tables S [] st = st"
| "map_tables S (t # ts) (context, env) =
     (let (context', off) = map_table S t context
      in map_tables S ts
           (context', env @ [(t @ ''_mem'', off), (t @ ''_num_rows'', table_num_rows S t)]))"

text \<open>
  The loop over the literals: \<open>start\<close> and \<open>dst\<close> are offsets into the arena, and
  \<open>add_literal\<close> records \<open>context.heap + (dst - start_addr)\<close> for the literal.
\<close>

fun copy_literals ::
  "nat \<Rightarrow> string list \<Rightarrow> memory \<times> nat \<times> (string \<rightharpoonup> nat)
     \<Rightarrow> memory \<times> nat \<times> (string \<rightharpoonup> nat)" where
  "copy_literals start [] st = st"
| "copy_literals start (literal # ls) (mem, dst, lits) =
     (let (mem', e) = stpcpy mem dst literal
      in copy_literals start ls (mem', e + 1, lits(literal \<mapsto> start + (dst - start))))"

text \<open>
  \<open>create_env\<close>, on the context of the module and the literal table of the code
  generator.  The result is the context, the literal table and the table entries of
  \<open>env\<close>; the functions installed in \<open>env\<close> are the host callbacks below.
\<close>

definition create_env ::
  "'k storage \<Rightarrow> operator \<Rightarrow> 'k wasm_context \<Rightarrow> (string \<rightharpoonup> nat)
     \<Rightarrow> error + 'k wasm_context \<times> (string \<rightharpoonup> nat) \<times> (string \<times> nat) list" where
  "create_env S root context0 lits =
     (let (context, env) = map_tables S (Collect_tables (table_iteration S) root) (context0, []) in
      err_bind (M_insist (Is_Page_Aligned (pagesize S) (heap context)) ''heap not aligned'')
        (\<lambda>_.
      err_bind (Collect_literals (literal_iteration S) root) (\<lambda>literals.
      let bytes = sum_list (map (\<lambda>literal. strlen literal + 1) literals);
          aligned_bytes = Ceil_To_Next_Page (pagesize S) bytes;
          (context', lits') =
            (if aligned_bytes \<noteq> 0
             then let mem0 = mmap_anon (vm context) (heap context) aligned_bytes;
                      (mem, dst, lits') =
                        copy_literals (heap context) literals (mem0, heap context, lits)
                  in (install_guard_page (pagesize S)
                        (context\<lparr>vm := mem, heap := heap context + aligned_bytes\<rparr>), lits')
             else (context, lits))
      in err_bind (M_insist (Is_Page_Aligned (pagesize S) (heap context')) ''heap not aligned'')
           (\<lambda>_. Inr (context', lits', env)))))"

section \<open>Tuples and sinks\<close>

text \<open>
  Modelled from the spec: \<open>Tuple\<close> is missing from the sources.  A tuple has one slot per
  entry of its schema; a slot that is not set is NULL.
\<close>

type_synonym tuple = "val option list"

definition Tuple :: "schema \<Rightarrow> tuple" where
  "Tuple s = replicate (num_entries s) None"

definition tuple_set :: "tuple \<Rightarrow> nat \<Rightarrow> val \<Rightarrow> tuple" where
  "tuple_set t i v = t[i := Some v]"

definition tuple_clear :: "tuple \<Rightarrow> tuple" where
  "tuple_clear t = map (\<lambda>x. None) t"

text \<open>
  What the host does to the outside: the tuples handed to the callback of a callback
  sink, the text written to the stream of a print sink and of a no-op sink, and the
  reads of the result buffer, each as the offset of the buffer and the row read.
\<close>

record io =
  callback_rows :: "tuple list"
  print_out :: string
  noop_out :: string
  buffer_reads :: "(nat \<times> nat) list"

section \<open>The stack machine of the interpreter\<close>

text \<open>
  Modelled from the spec: \<open>StackMachine\<close> and \<open>Interpreter::compile_load\<close> are missing
  from the sources.  The instructions are the ones \<open>read_result_set\<close> emits, with the
  meaning its comments give them: \<open>Ld_Tup\<close> pushes a slot of an argument tuple, \<open>St_Tup\<close>
  stores the top of the stack into a slot and leaves it on the stack, \<open>Pop\<close> removes the
  top, \<open>Print\<close> writes the top (and for \<open>NoneType\<close> first pushes a NULL), \<open>Putc\<close> writes
  a character, \<open>Ld_Const\<close> pushes a constant added to the machine.  \<open>Ld_Row\<close> stands for
  the program \<open>compile_load\<close> makes: it reads the next row of the result buffer by the
  layout into the first slots of argument tuple 0.  The only stream added to a machine
  is the one of the print sink, so the stream index is left out.
\<close>

datatype instr =
    Ld_Row
  | Ld_Tup nat nat
  | St_Tup nat nat
  | St_Tup_Null nat nat
  | Pop
  | Putc char
  | Print ty
  | Ld_Const val

record loader =
  ld_layout :: layout
  ld_mem :: memory
  ld_addr :: nat
  ld_cols :: nat

record machine =
  stack :: "val option list"
  tuples :: "tuple list"
  row :: nat
  mio :: io

definition emit_St_Tup :: "nat \<Rightarrow> nat \<Rightarrow> ty \<Rightarrow> instr" where
  "emit_St_Tup t i T = (if is_none T then St_Tup_Null t i else St_Tup t i)"

definition put :: "string \<Rightarrow> machine \<Rightarrow> machine" where
  "put s m = m\<lparr>mio := (mio m)\<lparr>print_out := print_out (mio m) @ s\<rparr>\<rparr>"

fun exec_instr :: "formatters \<Rightarrow> loader \<Rightarrow> instr \<Rightarrow> machine \<Rightarrow> error + machine" where
  "exec_instr fmt L Ld_Row m =
     (case tuples m of
        [] \<Rightarrow> Inl (Insist_failed ''no tuple to load into'')
      | t # ts \<Rightarrow>
          if length t < ld_cols L then Inl (Insist_failed ''tuple too short'')
          else Inr (m\<lparr>tuples :=
                        map (\<lambda>i. if i < ld_cols L
                                  then ld_layout L (ld_mem L) (ld_addr L) (row m) i
                                  else t ! i) [0..<length t] # ts,
                      row := Suc (row m),
                      mio := (mio m)\<lparr>buffer_reads :=
                                         buffer_reads (mio m) @ [(ld_addr L, row m)]\<rparr>\<rparr>))"
| "exec_instr fmt L (Ld_Tup t i) m =
     (if t < length (tuples m) \<and> i < length (tuples m ! t)
      then Inr (m\<lparr>stack := (tuples m ! t ! i) # stack m\<rparr>)
      else Inl (Insist_failed ''no such tuple slot''))"
| "exec_instr fmt L (St_Tup t i) m =
     (case stack m of
        [] \<Rightarrow> Inl (Insist_failed ''stack is empty'')
      | v # st \<Rightarrow>
          if t < length (tuples m) \<and> i < length (tuples m ! t)
          then Inr (m\<lparr>tuples := (tuples m)[t := (tuples m ! t)[i := v]]\<rparr>)
          else Inl (Insist_failed ''no such tuple slot''))"
| "exec_instr fmt L (St_Tup_Null t i) m =
     (if t < length (tuples m) \<and> i < length (tuples m ! t)
      then Inr (m\<lparr>tuples := (tuples m)[t := (tuples m ! t)[i := None]]\<rparr>)
      else Inl (Insist_failed ''no such tuple slot''))"
| "exec_instr fmt L Pop m =
     (case stack m of
        [] \<Rightarrow> Inl (Insist_failed ''stack is empty'')
      | v # st \<Rightarrow> Inr (m\<lparr>stack := st\<rparr>))"
| "exec_instr fmt L (Putc c) m = Inr (put [c] m)"
| "exec_instr fmt L (Print T) m =
     (if is_none T then Inr (put ''NULL'' (m\<lparr>stack := None # stack m\<rparr>))
      else case stack m of
             [] \<Rightarrow> Inl (Insist_failed ''stack is empty'')
           | None # st \<Rightarrow> Inr (put ''NULL'' m)
           | Some v # st \<Rightarrow> err_bind (print_value fmt v T) (\<lambda>s. Inr (put s m)))"
| "exec_instr fmt L (Ld_Const v) m = Inr (m\<lparr>stack := Some v # stack m\<rparr>)"

fun exec :: "formatters \<Rightarrow> loader \<Rightarrow> instr list \<Rightarrow> machine \<Rightarrow> error + machine" where
  "exec fmt L [] m = Inr m"
| "exec fmt L (i # is) m = err_bind (exec_instr fmt L i m) (exec fmt L is)"

text \<open>One call of the machine on its argument tuples starts with an empty stack.\<close>

definition run :: "formatters \<Rightarrow> loader \<Rightarrow> instr list \<Rightarrow> machine \<Rightarrow> error + machine" where
  "run fmt L prog m = exec fmt L prog (m\<lparr>stack := []\<rparr>)"

fun repeat :: "nat \<Rightarrow> ('s \<Rightarrow> error + 's) \<Rightarrow> 's \<Rightarrow> error + 's" where
  "repeat 0 body s = Inr s"
| "repeat (Suc n) body s = err_bind (body s) (repeat n body)"

section \<open>The result-set reader\<close>

text \<open>
  \<open>find_projection\<close>: the projection nearest to the root along the chain of only
  children, with its list of projections; \<open>None\<close> when the chain ends in an operator that
  is no consumer.
\<close>

fun find_projection :: "operator \<Rightarrow> error + (expr \<times> string option) list option" where
  "find_projection (Operator k s cs) =
     (case k of
        ProjectionOperator ps \<Rightarrow> Inr (Some ps)
      | _ \<Rightarrow>
          if is_Consumer k
          then (case cs of
                  [c] \<Rightarrow>
                    err_bind (M_insist (num_entries s = num_entries (schema c))
                      ''at least one projection with the same schema as the plan's root must be contained'')
                      (\<lambda>_.
                    err_bind (M_insist (map entry_id s = map entry_id (schema c))
                      ''at least one projection with the same schema as the plan's root must be contained'')
                      (\<lambda>_.
                    find_projection c))
                | _ \<Rightarrow> Inl (Insist_failed
                      ''at least one projection without siblings in the operator tree must be contained''))
          else Inr None)"

text \<open>\<open>projections[i]\<close>; an index beyond the vector, undefined in the source, stops the model.\<close>

definition projection_at ::
  "(expr \<times> string option) list \<Rightarrow> nat \<Rightarrow> error + (expr \<times> string option)" where
  "projection_at ps i =
     (if i < length ps then Inr (ps ! i) else Inl (Insist_failed ''no such projection''))"

text \<open>\<open>Interpreter::eval(as<const ast::Constant>(projections[i].first))\<close>.\<close>

definition eval_projection :: "(expr \<times> string option) list \<Rightarrow> nat \<Rightarrow> error + val" where
  "eval_projection ps i =
     err_bind (projection_at ps i) (\<lambda>p. err_bind (as_Constant (fst p)) eval)"

text \<open>\<open>schema[id].first\<close>: the position of the entry with the identifier.\<close>

fun index_from :: "nat \<Rightarrow> schema \<Rightarrow> ident \<Rightarrow> error + nat" where
  "index_from i [] x = Inl (Insist_failed ''identifier not found'')"
| "index_from i (e # es) x = (if entry_id e = x then Inr i else index_from (Suc i) es x)"

definition schema_index :: "schema \<Rightarrow> ident \<Rightarrow> error + nat" where
  "schema_index s x = index_from 0 s x"

text \<open>Case A, callback sink: the loop that sets the constants of the one tuple.\<close>

fun set_all_constants ::
  "(expr \<times> string option) list \<Rightarrow> nat \<Rightarrow> schema \<Rightarrow> tuple \<Rightarrow> error + tuple" where
  "set_all_constants ps i [] tup = Inr tup"
| "set_all_constants ps i (e # es) tup =
     (if is_none (entry_ty e) then set_all_constants ps (Suc i) es tup
      else err_bind (M_insist (is_constant (entry_id e)) ''e.id.is_constant()'') (\<lambda>_.
           err_bind (eval_projection ps i) (\<lambda>v.
           set_all_constants ps (Suc i) es (tuple_set tup i v))))"

text \<open>Case A, print sink: the loop that renders the one line.\<close>

fun print_all_constants ::
  "formatters \<Rightarrow> (expr \<times> string option) list \<Rightarrow> nat \<Rightarrow> schema \<Rightarrow> string \<Rightarrow> error + string" where
  "print_all_constants fmt ps i [] tup = Inr tup"
| "print_all_constants fmt ps i (e # es) tup =
     (let tup1 = (if i \<noteq> 0 then tup @ '','' else tup) in
      err_bind (M_insist (is_constant (entry_id e)) ''e.id.is_constant()'') (\<lambda>_.
      err_bind (projection_at ps i) (\<lambda>p.
      err_bind (as_Constant (fst p)) (\<lambda>c.
      err_bind (print_constant fmt c (entry_ty e)) (\<lambda>s.
      print_all_constants fmt ps (Suc i) es (tup1 @ s))))))"

text \<open>Cases B and C, callback sink: the loop that sets the constants that are not NULL.\<close>

fun set_constants ::
  "(expr \<times> string option) list option \<Rightarrow> nat \<Rightarrow> schema \<Rightarrow> tuple \<Rightarrow> error + tuple" where
  "set_constants projection i [] tup = Inr tup"
| "set_constants projection i (e # es) tup =
     (if is_none (entry_ty e) then set_constants projection (Suc i) es tup
      else if is_constant (entry_id e)
      then (case projection of
              None \<Rightarrow> Inl (Insist_failed ''projection must be found'')
            | Some ps \<Rightarrow>
                err_bind (eval_projection ps i) (\<lambda>v.
                set_constants projection (Suc i) es (tuple_set tup i v)))
      else set_constants projection (Suc i) es tup)"

text \<open>Case C: the inner loop over the output positions, for one payload entry.\<close>

fun emit_stores :: "entry \<Rightarrow> nat \<Rightarrow> schema \<Rightarrow> error + instr list" where
  "emit_stores entry j [] = Inr []"
| "emit_stores entry j (e # es) =
     (if entry_id e = entry_id entry
      then err_bind (M_insist (entry_ty e = entry_ty entry) ''e.type == entry.type'') (\<lambda>_.
           err_bind (emit_stores entry (Suc j) es) (\<lambda>rest.
           Inr (emit_St_Tup 1 j (entry_ty e) # rest)))
      else emit_stores entry (Suc j) es)"

text \<open>Case C: the outer loop over the payload entries.\<close>

fun emit_copy :: "schema \<Rightarrow> nat \<Rightarrow> schema \<Rightarrow> error + instr list" where
  "emit_copy s i [] = Inr []"
| "emit_copy s i (entry # es) =
     err_bind (emit_stores entry 0 s) (\<lambda>stores.
     err_bind (emit_copy s (Suc i) es) (\<lambda>rest.
     Inr ((if \<not> is_none (entry_ty entry) then [Ld_Tup 0 i] else [])
          @ stores
          @ (if \<not> is_none (entry_ty entry) then [Pop] else [])
          @ rest)))"

text \<open>
  Print sink with a payload: the loop that emits the printing of one row.  \<open>old_idx\<close> is
  \<open>None\<close> for the source's \<open>-1UL\<close>; the flag \<open>constant_emitted\<close> is set and cleared within
  one round, so it is the branch taken.
\<close>

fun emit_print_row ::
  "(expr \<times> string option) list option \<Rightarrow> schema \<Rightarrow> nat \<Rightarrow> nat option \<Rightarrow> schema
     \<Rightarrow> error + instr list" where
  "emit_print_row projection payload i old_idx [] =
     Inr (case old_idx of None \<Rightarrow> [] | Some k \<Rightarrow> [Pop])"
| "emit_print_row projection payload i old_idx (e # es) =
     (let sep = (if i \<noteq> 0 then [Putc CHR '',''] else []) in
      if \<not> is_none (entry_ty e)
      then if is_constant (entry_id e)
           then (case projection of
                   None \<Rightarrow> Inl (Insist_failed ''projection must be found'')
                 | Some ps \<Rightarrow>
                     err_bind (eval_projection ps i) (\<lambda>v.
                     err_bind (emit_print_row projection payload (Suc i) old_idx es) (\<lambda>rest.
                     Inr (sep @ [Ld_Const v, Print (entry_ty e), Pop] @ rest))))
           else err_bind (schema_index payload (entry_id e)) (\<lambda>idx.
                err_bind (emit_print_row projection payload (Suc i) (Some idx) es) (\<lambda>rest.
                Inr (sep
                     @ (if Some idx \<noteq> old_idx
                        then (case old_idx of None \<Rightarrow> [] | Some k \<Rightarrow> [Pop]) @ [Ld_Tup 0 idx]
                        else [])
                     @ [Print (entry_ty e)] @ rest)))
      else err_bind (emit_print_row projection payload (Suc i) old_idx es) (\<lambda>rest.
           Inr (sep @ [Print (entry_ty e), Pop] @ rest)))"

definition callback :: "tuple \<Rightarrow> machine \<Rightarrow> machine" where
  "callback tup m = m\<lparr>mio := (mio m)\<lparr>callback_rows := callback_rows (mio m) @ [tup]\<rparr>\<rparr>"

text \<open>Case A: the schema has only constants.\<close>

definition read_constants ::
  "formatters \<Rightarrow> operator \<Rightarrow> (expr \<times> string option) list option \<Rightarrow> nat \<Rightarrow> io \<Rightarrow> error + io" where
  "read_constants fmt root_op projection num_tuples io0 =
     (case projection of
        None \<Rightarrow> Inl (Insist_failed ''projection must be found'')
      | Some projections \<Rightarrow>
          (case kind root_op of
             CallbackOperator \<Rightarrow>
               err_bind (set_all_constants projections 0 (schema root_op) (Tuple (schema root_op)))
                 (\<lambda>tup.
               Inr (io0\<lparr>callback_rows := callback_rows io0 @ replicate num_tuples tup\<rparr>))
           | PrintOperator \<Rightarrow>
               err_bind (print_all_constants fmt projections 0 (schema root_op) []) (\<lambda>tup.
               Inr (io0\<lparr>print_out :=
                          print_out io0 @ concat (replicate num_tuples (tup @ [CHR 0x0A]))\<rparr>))
           | _ \<Rightarrow> Inr io0))"

text \<open>Case B: callback sink, no deduplication.\<close>

definition read_rows ::
  "formatters \<Rightarrow> loader \<Rightarrow> operator \<Rightarrow> schema \<Rightarrow> (expr \<times> string option) list option
     \<Rightarrow> nat \<Rightarrow> io \<Rightarrow> error + io" where
  "read_rows fmt L root_op deduplicated_schema projection num_tuples io0 =
     err_bind (M_insist (schema root_op = deduplicated_schema) ''schema == deduplicated_schema'')
       (\<lambda>_.
     err_bind (set_constants projection 0 (schema root_op) (Tuple (schema root_op))) (\<lambda>tup.
     err_bind (repeat num_tuples
                 (\<lambda>m. err_bind (run fmt L [Ld_Row] m) (\<lambda>m'.
                    Inr ((callback (tuples m' ! 0) m')
                           \<lparr>tuples := [tuple_clear (tuples m' ! 0)]\<rparr>)))
                 \<lparr>stack = [], tuples = [tup], row = 0, mio = io0\<rparr>) (\<lambda>m.
     Inr (mio m))))"

text \<open>Case C: callback sink, deduplication was performed.\<close>

definition read_rows_dedup ::
  "formatters \<Rightarrow> loader \<Rightarrow> operator \<Rightarrow> schema \<Rightarrow> (expr \<times> string option) list option
     \<Rightarrow> nat \<Rightarrow> io \<Rightarrow> error + io" where
  "read_rows_dedup fmt L root_op payload projection num_tuples io0 =
     err_bind (set_constants projection 0 (schema root_op) (Tuple (schema root_op))) (\<lambda>tup_dupl.
     err_bind (emit_copy (schema root_op) 0 payload) (\<lambda>copy.
     err_bind (repeat num_tuples
                 (\<lambda>m. err_bind (run fmt L (Ld_Row # copy) m) (\<lambda>m'.
                    Inr (callback (tuples m' ! 1) m')))
                 \<lparr>stack = [], tuples = [Tuple payload, tup_dupl], row = 0, mio = io0\<rparr>) (\<lambda>m.
     Inr (mio m))))"

text \<open>Print sink with a payload.\<close>

definition print_rows ::
  "formatters \<Rightarrow> loader \<Rightarrow> operator \<Rightarrow> schema \<Rightarrow> (expr \<times> string option) list option
     \<Rightarrow> nat \<Rightarrow> io \<Rightarrow> error + io" where
  "print_rows fmt L root_op payload projection num_tuples io0 =
     err_bind (emit_print_row projection payload 0 None (schema root_op)) (\<lambda>printer.
     err_bind (repeat num_tuples
                 (\<lambda>m. err_bind (run fmt L (Ld_Row # printer) m) (\<lambda>m'.
                    Inr (put [CHR 0x0A] m')))
                 \<lparr>stack = [], tuples = [Tuple payload], row = 0, mio = io0\<rparr>) (\<lambda>m.
     Inr (mio m)))"

text \<open>
  \<open>read_result_set(offset, count)\<close>, called by the guest of the module \<open>module_id\<close>.  The
  import is declared with two parameters, so \<open>info.Length() == 2\<close> holds.
\<close>

definition read_result_set ::
  "formatters \<Rightarrow> 'k registry \<Rightarrow> nat \<Rightarrow> 32 word \<Rightarrow> 32 word \<Rightarrow> io \<Rightarrow> error + io" where
  "read_result_set fmt contexts module_id result_set_offset num_tuples io0 =
     err_bind (Get_Wasm_Context_By_ID contexts module_id) (\<lambda>context.
     let root_op = plan context;
         deduplicated_schema = deduplicate (schema root_op);
         deduplicated_schema_without_constants = drop_constants deduplicated_schema
     in
     if num_tuples = 0 then Inr io0
     else
     err_bind (M_insist ((result_set_offset = 0)
                           = (num_entries deduplicated_schema_without_constants = 0))
       ''result set offset equals 0 (i.e. nullptr) iff schema contains only constants'') (\<lambda>_.
     err_bind (find_projection root_op) (\<lambda>projection.
     if num_entries deduplicated_schema_without_constants = 0
     then read_constants fmt root_op projection (unat num_tuples) io0
     else
     (case result_set_factory context of
        None \<Rightarrow> Inl (Insist_failed ''result set factory must be set'')
      | Some factory \<Rightarrow>
          let L = \<lparr>ld_layout = factory deduplicated_schema_without_constants,
                   ld_mem = vm context, ld_addr = unat result_set_offset,
                   ld_cols = num_entries deduplicated_schema_without_constants\<rparr>
          in (case kind root_op of
                CallbackOperator \<Rightarrow>
                  if num_entries (schema root_op) = num_entries deduplicated_schema
                  then read_rows fmt L root_op deduplicated_schema projection
                         (unat num_tuples) io0
                  else read_rows_dedup fmt L root_op deduplicated_schema_without_constants
                         projection (unat num_tuples) io0
              | PrintOperator \<Rightarrow>
                  print_rows fmt L root_op deduplicated_schema_without_constants projection
                    (unat num_tuples) io0
              | _ \<Rightarrow> Inr io0)))))"

section \<open>Comma-separated fields\<close>

text \<open>
  The text of a row in print mode, in the words of the spec: the fields separated by
  commas, with no separator after the last.  \<open>csv_from i\<close> is the text of fields that
  stand at positions \<open>i\<close>, \<open>i + 1\<close>, ... of the row.
\<close>

fun csv_from :: "nat \<Rightarrow> string list \<Rightarrow> string" where
  "csv_from i [] = []"
| "csv_from i (f # fs) = (if i \<noteq> 0 then '','' else []) @ f @ csv_from (Suc i) fs"

definition csv :: "string list \<Rightarrow> string" where
  "csv fs = csv_from 0 fs"

section \<open>Host callbacks that end the query\<close>

text \<open>
  What code generation leaves behind, as far as the driver and the callbacks see it.
  Modelled from the spec: the code generator, \<open>Module\<close> and the generated Wasm code are
  missing from the sources.  \<open>module_valid\<close> is the result of \<open>Module::Validate()\<close>;
  \<open>messages\<close> is the message table \<open>insist\<close> and \<open>throw\<close> read; \<open>exception_names\<close> is
  \<open>m::wasm::exception::names_\<close>; \<open>gen_factory\<close> and \<open>gen_indexes\<close> are the result-set
  factory and the indexes that emitting the plan sets in the context; \<open>calls\<close> are the
  host callbacks the exported \<open>main\<close> invokes, in order, and \<open>main_result\<close> is the row count
  it returns; \<open>debug_session\<close> is what a debugger session does to the sinks.
\<close>

datatype host_call =
    Call_insist nat
  | Call_throw nat nat
  | Call_read_result_set "32 word" "32 word"

record 'k generated =
  module_valid :: bool
  messages :: "nat \<Rightarrow> string \<times> nat \<times> string option"
  exception_names :: "nat \<Rightarrow> string"
  gen_factory :: "(schema \<Rightarrow> layout) option"
  gen_indexes :: "'k index list"
  calls :: "host_call list"
  main_result :: "32 word"
  debug_session :: "io \<Rightarrow> io"

text \<open>\<open>insist\<close>: the diagnostic goes to \<open>stderr\<close> and the process aborts.\<close>

definition insist :: "'k generated \<Rightarrow> nat \<Rightarrow> error + io" where
  "insist g idx =
     (case messages g idx of (filename, line, msg) \<Rightarrow>
        Inl (Insist_failed
          (filename @ '':'' @ show_nat line @ '': Wasm_insist failed.''
           @ (case msg of None \<Rightarrow> [] | Some t \<Rightarrow> ''  '' @ t @ ''.''))))"

text \<open>\<open>_throw\<close>: a typed exception with file, line and message.\<close>

definition throw :: "'k generated \<Rightarrow> nat \<Rightarrow> nat \<Rightarrow> error + io" where
  "throw g type idx =
     (case messages g idx of (filename, line, msg) \<Rightarrow>
        (case msg of
           None \<Rightarrow> Inl (Insist_failed ''message is null'')
         | Some t \<Rightarrow>
             Inl (Wasm_exception type
               (filename @ '':'' @ show_nat line @ '': Exception `'' @ exception_names g type
                @ ''` thrown.'' @ (if t \<noteq> [] then ''  '' @ t @ ''.'' else []) @ [CHR 0x0A]))))"

definition host ::
  "formatters \<Rightarrow> 'k generated \<Rightarrow> 'k registry \<Rightarrow> nat \<Rightarrow> host_call \<Rightarrow> io \<Rightarrow> error + io" where
  "host fmt g contexts module_id c io0 =
     (case c of
        Call_insist idx \<Rightarrow> insist g idx
      | Call_throw type idx \<Rightarrow> throw g type idx
      | Call_read_result_set off n \<Rightarrow> read_result_set fmt contexts module_id off n io0)"

text \<open>
  The calls of \<open>main\<close>, in order.  A call that fails ends them: the result is the failure
  and the sinks as they were when it was raised.
\<close>

fun run_calls ::
  "formatters \<Rightarrow> 'k generated \<Rightarrow> 'k registry \<Rightarrow> nat \<Rightarrow> host_call list \<Rightarrow> io
     \<Rightarrow> error option \<times> io" where
  "run_calls fmt g contexts module_id [] io0 = (None, io0)"
| "run_calls fmt g contexts module_id (c # cs) io0 =
     (case host fmt g contexts module_id c io0 of
        Inl e \<Rightarrow> (Some e, io0)
      | Inr io1 \<Rightarrow> run_calls fmt g contexts module_id cs io1)"

section \<open>The engine driver\<close>

record options =
  cdt_port :: nat
  quiet :: bool

text \<open>
  The state of the process the driver works on: the registry \<open>contexts_\<close> (here
  \<open>wasm_contexts\<close>), the counter the module ids come from, the \<open>Module\<close> singleton (its id
  while it lives), the literal table of the code generation context (while it lives), how
  often the isolate has been entered by \<open>isolate_->Enter()\<close> and not left, whether
  \<open>inspector_\<close> (here \<open>inspector_client\<close>) is set, and the sinks.
  Modelled from the spec: \<open>Module::Init\<close>/\<open>Dispose\<close> and \<open>CodeGenContext::Init\<close>/\<open>Dispose\<close>
  are missing from the sources; a query creates both and tears both down.
\<close>

record 'k engine =
  wasm_contexts :: "'k registry"
  NEXT_MODULE_ID :: nat
  module :: "nat option"
  codegen :: "(string \<rightharpoonup> nat) option"
  entered :: nat
  inspector_client :: bool
  eio :: io

text \<open>A step that may fail: the failure leaves \<open>execute\<close> with the state reached so far.\<close>

definition stage :: "error + 'a \<Rightarrow> 's \<Rightarrow> ('a \<Rightarrow> error option \<times> 's) \<Rightarrow> error option \<times> 's" where
  "stage r s k = (case r of Inl e \<Rightarrow> (Some e, s) | Inr x \<Rightarrow> k x)"

text \<open>
  \<open>compile\<close>: emitting the plan sets the factory and the indexes of the context; an
  invalid module is a \<open>std::logic_error\<close>.
\<close>

definition compile :: "'k generated \<Rightarrow> 'k wasm_context \<Rightarrow> error + 'k wasm_context" where
  "compile g context =
     (if module_valid g
      then Inr (context\<lparr>result_set_factory := gen_factory g, indexes := gen_indexes g\<rparr>)
      else Inl (Logic_error ''invalid module''))"

text \<open>The trailer with the number of result tuples.\<close>

definition rows_line :: "32 word \<Rightarrow> string" where
  "rows_line num_rows = show_nat (unat num_rows) @ '' rows'' @ [CHR 0x0A]"

definition print_total :: "options \<Rightarrow> operator \<Rightarrow> 32 word \<Rightarrow> io \<Rightarrow> io" where
  "print_total opts root_op num_rows io0 =
     (case kind root_op of
        PrintOperator \<Rightarrow>
          if \<not> quiet opts then io0\<lparr>print_out := print_out io0 @ rows_line num_rows\<rparr> else io0
      | NoOpOperator \<Rightarrow>
          if \<not> quiet opts then io0\<lparr>noop_out := noop_out io0 @ rows_line num_rows\<rparr> else io0
      | _ \<Rightarrow> io0)"

text \<open>
  \<open>V8Engine::execute\<close>.  The result is the failure that left it, if any, and the state
  of the process then.  The plan is given by its matched root.
\<close>

definition execute ::
  "formatters \<Rightarrow> 'k storage \<Rightarrow> options \<Rightarrow> 'k generated \<Rightarrow> operator \<Rightarrow> 'k engine
     \<Rightarrow> error option \<times> 'k engine" where
  "execute fmt S opts g p st0 =
     (let module_id = NEXT_MODULE_ID st0;
          st1 = st0\<lparr>module := Some module_id, NEXT_MODULE_ID := Suc module_id,
                    codegen := Some Map.empty, entered := Suc (entered st0)\<rparr>
      in
      stage (Create_Wasm_Context_For_ID (wasm_contexts st1) module_id p (cdt_port opts < 1024)) st1
        (\<lambda>reg.
      let st2 = st1\<lparr>wasm_contexts := reg\<rparr> in
      stage (Get_Wasm_Context_By_ID reg module_id) st2 (\<lambda>wasm_context.
      stage (create_env S p wasm_context Map.empty) st2 (\<lambda>(context1, lits, env).
      let st3 = st2\<lparr>wasm_contexts := (wasm_contexts st2)(module_id \<mapsto> context1), codegen := Some lits\<rparr> in
      stage (M_insist (Is_Page_Aligned (pagesize S) (heap context1)) ''heap not aligned'') st3
        (\<lambda>_.
      let context2 = context1\<lparr>vm := (\<lambda>a. if heap context1 \<le> a then NUL else vm context1 a)\<rparr>;
          st4 = st3\<lparr>wasm_contexts := (wasm_contexts st3)(module_id \<mapsto> context2)\<rparr>
      in
      stage (compile g context2) st4 (\<lambda>context3.
      let st5 = st4\<lparr>wasm_contexts := (wasm_contexts st4)(module_id \<mapsto> context3)\<rparr>;
          st6 = (if 1024 \<le> cdt_port opts \<and> \<not> inspector_client st5
                 then st5\<lparr>inspector_client := True\<rparr> else st5)
      in
      if inspector_client st6 then (None, st6\<lparr>eio := debug_session g (eio st6)\<rparr>)
      else
      (case run_calls fmt g (wasm_contexts st6) module_id (calls g) (eio st6) of
         (Some e, io1) \<Rightarrow> (Some e, st6\<lparr>eio := io1\<rparr>)
       | (None, io1) \<Rightarrow>
           let num_rows = main_result g;
               st7 = st6\<lparr>eio := print_total opts p num_rows io1\<rparr>
           in
           stage (Dispose_Wasm_Context (wasm_contexts st7) module_id) st7 (\<lambda>reg'.
           (None, st7\<lparr>wasm_contexts := reg', entered := entered st7 - 1,
                       codegen := None, module := None\<rparr>)))))))))"

section \<open>Rows of a deduplicated schema, in the words of the spec\<close>









section \<open>Example inputs\<close>

definition ex_formatters :: formatters where
  "ex_formatters =
     \<lparr>put_float = (\<lambda>f. ''float''), put_double = (\<lambda>d. ''double''), put_tm = (\<lambda>t. ''time'')\<rparr>"

definition ex_index :: "int index" where
  "ex_index = \<lparr>idx_kind = ArrayIndex, idx_key_type = Key_i4,
                idx_entries = [(1, 10), (3, 11), (3, 12), (5, 13)]\<rparr>"

definition ex_index_context :: "int wasm_context" where
  "ex_index_context =
     \<lparr>ctx_id = 0, plan = Operator NoOpOperator [] [], vm = (\<lambda>a. NUL), heap = 0,
      TRAP_GUARD_PAGES = True, indexes = [ex_index], result_set_factory = None\<rparr>"

definition ex_literal_plan :: operator where
  "ex_literal_plan =
     Operator PrintOperator [] [
       Operator (FilterOperator [[BinaryExpr (Designator ''name'') (Constant (Some (V_p ''ab'')))]]) [] [
         Operator (ProjectionOperator [(Constant (Some (V_p ''x'')), None),
                                        (Constant (Some (V_p ''ab'')), None)]) [] []]]"

definition ex_fresh_context :: "int wasm_context" where
  "ex_fresh_context =
     \<lparr>ctx_id = 0, plan = ex_literal_plan, vm = (\<lambda>a. NUL), heap = 0,
      TRAP_GUARD_PAGES = True, indexes = [], result_set_factory = None\<rparr>"

definition ex_storage :: "int storage" where
  "ex_storage = \<lparr>pagesize = 4096, map_table = (\<lambda>t c. (c, heap c)), table_num_rows = (\<lambda>t. 0),
                  literal_iteration = rev, table_iteration = rev\<rparr>"

text \<open>
  Plans of the shape sink over projection over scan.  \<open>ex_plan_constants\<close> is
  \<open>SELECT 1, 'x', NULL\<close>; \<open>ex_plan_dup\<close> is \<open>SELECT id, id\<close>; \<open>ex_plan_mixed\<close> is
  \<open>SELECT 1, id, NULL, id, 'x'\<close>.
\<close>

definition ex_const :: ident where
  "ex_const = Identifier None ''$const'' True"

definition ex_id :: ident where
  "ex_id = Identifier (Some ''t'') ''id'' False"

definition ex_plan_constants :: "op_kind \<Rightarrow> operator" where
  "ex_plan_constants k =
     Operator k [Entry ex_const (Numeric N_Int 32), Entry ex_const CharacterSequence,
                 Entry ex_const NoneType]
       [Operator (ProjectionOperator [(Constant (Some (V_i 1)), None),
                                       (Constant (Some (V_p ''x'')), None),
                                       (Constant None, None)])
          [Entry ex_const (Numeric N_Int 32), Entry ex_const CharacterSequence,
           Entry ex_const NoneType]
          [Operator (ScanOperator ''t'') [Entry ex_id (Numeric N_Int 32)] []]]"

definition ex_plan_dup :: "op_kind \<Rightarrow> operator" where
  "ex_plan_dup k =
     Operator k [Entry ex_id (Numeric N_Int 32), Entry ex_id (Numeric N_Int 32)]
       [Operator (ProjectionOperator [(Designator ''id'', None), (Designator ''id'', None)])
          [Entry ex_id (Numeric N_Int 32), Entry ex_id (Numeric N_Int 32)]
          [Operator (ScanOperator ''t'') [Entry ex_id (Numeric N_Int 32)] []]]"

definition ex_plan_mixed :: "op_kind \<Rightarrow> operator" where
  "ex_plan_mixed k =
     Operator k [Entry ex_const (Numeric N_Int 32), Entry ex_id (Numeric N_Int 32),
                 Entry ex_const NoneType, Entry ex_id (Numeric N_Int 32),
                 Entry ex_const CharacterSequence]
       [Operator (ProjectionOperator [(Constant (Some (V_i 1)), None), (Designator ''id'', None),
                                       (Constant None, None), (Designator ''id'', None),
                                       (Constant (Some (V_p ''x'')), None)])
          [Entry ex_const (Numeric N_Int 32), Entry ex_id (Numeric N_Int 32),
           Entry ex_const NoneType, Entry ex_id (Numeric N_Int 32),
           Entry ex_const CharacterSequence]
          [Operator (ScanOperator ''t'') [Entry ex_id (Numeric N_Int 32)] []]]"

text \<open>A layout whose every column of row \<open>r\<close> holds the integer \<open>7 + r\<close>.\<close>

definition ex_layout :: "schema \<Rightarrow> layout" where
  "ex_layout s mem addr r c = Some (V_i (word_of_nat (7 + r)))"

definition ex_context :: "operator \<Rightarrow> int wasm_context" where
  "ex_context p =
     \<lparr>ctx_id = 0, plan = p, vm = (\<lambda>a. NUL), heap = 0, TRAP_GUARD_PAGES = True,
      indexes = [], result_set_factory = Some ex_layout\<rparr>"

definition ex_io :: io where
  "ex_io = \<lparr>callback_rows = [], print_out = [], noop_out = [], buffer_reads = []\<rparr>"

text \<open>A fresh process, a guest with the given calls and row count, and options.\<close>

definition ex_engine :: "int engine" where
  "ex_engine =
     \<lparr>wasm_contexts = Map.empty, NEXT_MODULE_ID = 0, module = None, codegen = None,
      entered = 0, inspector_client = False, eio = ex_io\<rparr>"

definition ex_generated :: "host_call list \<Rightarrow> 32 word \<Rightarrow> int generated" where
  "ex_generated cs n =
     \<lparr>module_valid = True,
      messages = (\<lambda>i. (''q.cpp'', 7, Some ''check'')),
      exception_names = (\<lambda>t. ''failed_unittest_check''),
      gen_factory = Some ex_layout, gen_indexes = [],
      calls = cs, main_result = n, debug_session = (\<lambda>io0. io0)\<rparr>"

definition ex_options :: "nat \<Rightarrow> options" where
  "ex_options port = \<lparr>cdt_port = port, quiet = False\<rparr>"

section \<open>Deduplicated schemas\<close>

lemma deduplicate_into_ids:
  "entry_id ` set (deduplicate_into res s) = entry_id ` set res \<union> entry_id ` set s"
  by (induction s arbitrary: res) (auto simp add: has_def)


lemma deduplicate_ids: "entry_id ` set (deduplicate s) = entry_id ` set s"
  by (simp add: deduplicate_def deduplicate_into_ids)


lemma only_constants:
  assumes "num_entries (drop_constants (deduplicate s)) = 0" "e \<in> set s"
  shows "is_constant (entry_id e)"
proof -
  have "entry_id e \<in> entry_id ` set (deduplicate s)"
    using assms(2) by (simp add: deduplicate_ids)
  then obtain d where d: "d \<in> set (deduplicate s)" "entry_id d = entry_id e"
    by auto
  have "filter (\<lambda>e. \<not> is_constant (entry_id e)) (deduplicate s) = []"
    using assms(1) by (simp add: num_entries_def drop_constants_def)
  then have "is_constant (entry_id d)"
    using d(1) by (simp add: filter_empty_conv)
  with d(2) show ?thesis by simp
qed

section \<open>The copy program of the deduplicated rows\<close>

lemma err_bind_Inr:
  "err_bind m f = Inr y \<longleftrightarrow> (\<exists>x. m = Inr x \<and> f x = Inr y)"
  by (cases m) (simp_all add: err_bind_def)



lemma exec_Cons_Inr:
  "exec fmt L (i # p) m = Inr m' \<longleftrightarrow> (\<exists>m1. exec_instr fmt L i m = Inr m1 \<and> exec fmt L p m1 = Inr m')"
  by (simp add: err_bind_Inr)














section \<open>Constants and the payload schema\<close>








section \<open>Deduplicated rows for a callback sink\<close>


section \<open>Deduplicated rows for a printing sink\<close>












section \<open>Date rendering\<close>

lemma bit_int_hi:
  assumes "- (2 ^ k) \<le> (y::int)" "y < 2 ^ k" "k \<le> n"
  shows "bit y n = bit y k"
proof -
  have "signed_take_bit k y = y"
    using assms by (simp add: signed_take_bit_int_eq_self)
  then have "bit y n = bit (signed_take_bit k y) n"
    by simp
  also have "\<dots> = bit y (min k n)"
    by (simp add: bit_signed_take_bit_iff)
  finally show ?thesis
    using assms by (simp add: min_def)
qed

lemma bit_nat_lt:
  assumes "m < 2 ^ k" "bit (m::nat) n"
  shows "n < k"
proof (rule ccontr)
  assume "\<not> n < k"
  then have "k \<le> n" by simp
  moreover have "take_bit k m = m"
    using assms(1) by (simp add: take_bit_nat_eq_self_iff)
  ultimately have "\<not> bit m n"
    by (metis bit_take_bit_iff not_le)
  with assms(2) show False by simp
qed

lemma bit_encode_date_hi:
  assumes "m < 16" "d < 32" "9 \<le> k" "k < 32"
  shows "bit (encode_date y m d) k = bit y (k - 9)"
proof -
  have m: "\<And>j. bit m j \<Longrightarrow> j < 4"
    using bit_nat_lt[of m 4] assms by simp
  have d: "\<And>j. bit d j \<Longrightarrow> j < 5"
    using bit_nat_lt[of d 5] assms by simp
  show ?thesis
    using assms(3,4) unfolding encode_date_def
    by (auto simp add: bit_simps dest: d m)
qed

lemma year_field:
  assumes "- (2 ^ 22) \<le> y" "y < 2 ^ 22" "m < 16" "d < 32"
  shows "signed_drop_bit 9 (encode_date y m d) = word_of_int y"
proof (rule bit_word_eqI)
  fix n assume n: "n < LENGTH(32)"
  show "bit (signed_drop_bit 9 (encode_date y m d)) n = bit (word_of_int y :: 32 word) n"
  proof (cases "n < 23")
    case True
    then show ?thesis
      using assms(3,4)
      by (simp add: bit_signed_drop_bit_iff bit_encode_date_hi bit_simps)
  next
    case False
    then have "bit y n = bit y 22"
      using bit_int_hi[of 22 y n] assms(1,2) by simp
    with False n show ?thesis
      using assms(3,4)
      by (simp add: bit_signed_drop_bit_iff bit_encode_date_hi bit_simps)
  qed
qed

lemma month_field:
  assumes "m < 16" "d < 32"
  shows "signed_drop_bit 5 (encode_date y m d) AND 0xF = word_of_nat m"
proof (rule bit_word_eqI)
  fix n assume n: "n < LENGTH(32)"
  have m: "\<And>j. bit m j \<Longrightarrow> j < 4"
    using bit_nat_lt[of m 4] assms by simp
  have d: "\<And>j. bit d j \<Longrightarrow> j < 5"
    using bit_nat_lt[of d 5] assms by simp
  have f: "(0xF :: 32 word) = mask 4"
    by (simp add: mask_eq_exp_minus_1)
  show "bit (signed_drop_bit 5 (encode_date y m d) AND 0xF) n = bit (word_of_nat m :: 32 word) n"
  proof (cases "n < 4")
    case True
    then show ?thesis
      unfolding f encode_date_def
      by (auto simp add: bit_simps bit_signed_drop_bit_iff dest: d)
  next
    case False
    then show ?thesis
      unfolding f encode_date_def
      by (auto simp add: bit_simps dest: m)
  qed
qed

lemma day_field:
  assumes "d < 32"
  shows "encode_date y m d AND 0x1F = word_of_nat d"
proof (rule bit_word_eqI)
  fix n assume n: "n < LENGTH(32)"
  have d: "\<And>j. bit d j \<Longrightarrow> j < 5"
    using bit_nat_lt[of d 5] assms by simp
  have f: "(0x1F :: 32 word) = mask 5"
    by (simp add: mask_eq_exp_minus_1)
  show "bit (encode_date y m d AND 0x1F) n = bit (word_of_nat d :: 32 word) n"
    unfolding f encode_date_def
    using n by (auto simp add: bit_simps dest: d)
qed

lemma sint_year:
  assumes "- (2 ^ 22) \<le> y" "y < 2 ^ 22"
  shows "sint (word_of_int y :: 32 word) = y"
proof -
  have "- (2 ^ 31) \<le> y" "y < 2 ^ 31"
    using assms by simp_all
  then show ?thesis
    by (simp add: sint_sbintrunc' signed_take_bit_int_eq_self)
qed

lemma sint_small:
  assumes "n < 32"
  shows "sint (word_of_nat n :: 32 word) = int n"
proof -
  have "(word_of_nat n :: 32 word) = word_of_int (int n)"
    by simp
  then have "sint (word_of_nat n :: 32 word) = signed_take_bit 31 (int n)"
    by (simp only: sint_sbintrunc') simp
  also have "\<dots> = int n"
    using assms by (intro signed_take_bit_int_eq_self) auto
  finally show ?thesis .
qed

lemma length_show_nat_pos: "0 < length (show_nat n)"
  by (subst show_nat.simps) simp

lemma put_int_nonneg: "put_int w (int n) = zero_pad w n"
  by (simp add: put_int_def zero_pad_def)

lemma put_int_neg:
  "y < 0 \<Longrightarrow> put_int 5 y = CHR ''-'' # zero_pad 4 (nat (- y))"
  by (simp add: put_int_def zero_pad_def)

lemma print_date_encode:
  assumes "- (2 ^ 22) \<le> y" "y < 2 ^ 22" "m < 16" "d < 32"
  shows "print_date (encode_date y m d) =
           put_int (if 0 < y then 4 else 5) y @ ''-'' @ zero_pad 2 m @ ''-'' @ zero_pad 2 d"
proof -
  have "sint (signed_drop_bit 9 (encode_date y m d)) = y"
    using assms by (simp add: year_field sint_year)
  moreover have "sint (signed_drop_bit 5 (encode_date y m d) AND 0xF) = int m"
    using assms by (simp add: month_field sint_small)
  moreover have "sint (encode_date y m d AND 0x1F) = int d"
    using assms by (simp add: day_field sint_small)
  ultimately show ?thesis
    by (simp add: print_date_def put_int_nonneg)
qed

text \<open>
  C8.  In print mode a date constant whose 32 bits are \<open>year<<9 | month<<5 | day\<close> is
  rendered as year, \<open>-\<close>, month, \<open>-\<close>, day, with month and day padded with zeros to two
  digits.  A positive year is padded with zeros to four digits (and is longer when it has
  more); a negative year is its sign followed by the four-digit padding of its absolute
  value, five columns in all; the year 0 takes the five-column width without a sign.
  Year 2024, month 1, day 31 is printed as \<open>2024-01-31\<close>.
\<close>

theorem print_constant_date:
  assumes "- (2 ^ 22) \<le> y" "y < 2 ^ 22" "m < 16" "d < 32"
    and "(ucast v :: 32 word) = encode_date y m d"
  shows "print_constant fmt (Some (V_i v)) Date =
           Inr ((if 0 < y then zero_pad 4 (nat y)
                 else if y < 0 then CHR ''-'' # zero_pad 4 (nat (- y))
                 else ''00000'')
                @ ''-'' @ zero_pad 2 m @ ''-'' @ zero_pad 2 d)"
proof -
  have pc: "print_constant fmt (Some (V_i v)) Date = Inr (print_date (encode_date y m d))"
    using assms(5) by (simp add: print_constant_def is_none_def eval_def err_bind_def)
  have yr: "put_int (if 0 < y then 4 else 5) y =
              (if 0 < y then zero_pad 4 (nat y)
               else if y < 0 then CHR ''-'' # zero_pad 4 (nat (- y))
               else ''00000'')"
  proof (cases "0 < y")
    case True
    then have "put_int 4 y = put_int 4 (int (nat y))" by simp
    with True show ?thesis by (simp only: put_int_nonneg if_True)
  next
    case False
    show ?thesis
    proof (cases "y < 0")
      case True
      then show ?thesis by (simp add: put_int_neg)
    next
      case False
      with \<open>\<not> 0 < y\<close> have "y = 0" by simp
      then show ?thesis by (simp add: put_int_def show_nat.simps eval_nat_numeral)
    qed
  qed
  show ?thesis
    unfolding pc print_date_encode[OF assms(1-4)] yr by simp
qed

theorem print_constant_date_witness:
  "print_constant ex_formatters (Some (V_i 1036351)) Date = Inr ''2024-01-31''
   \<and> print_constant ex_formatters (Some (V_i 0xFFFFFFFFFFFFF63F)) Date = Inr ''-0005-01-31''"
proof -
  have e1: "(ucast (1036351 :: 64 word) :: 32 word) = encode_date 2024 1 31"
    by (simp add: encode_date_def)
  have e2: "(ucast (0xFFFFFFFFFFFFF63F :: 64 word) :: 32 word) = encode_date (- 5) 1 31"
    by (simp add: encode_date_def)
  have z: "zero_pad 4 2024 = ''2024''" "zero_pad 2 1 = ''01''" "zero_pad 2 31 = ''31''"
    "zero_pad 4 5 = ''0005''" "zero_pad 2 (Suc 0) = ''01''"
    by code_simp+
  have "print_constant ex_formatters (Some (V_i 1036351)) Date =
          Inr ((if (0::int) < 2024 then zero_pad 4 (nat 2024)
                else if (2024::int) < 0 then CHR ''-'' # zero_pad 4 (nat (- 2024))
                else ''00000'') @ ''-'' @ zero_pad 2 1 @ ''-'' @ zero_pad 2 31)"
    by (rule print_constant_date[OF _ _ _ _ e1, where fmt = ex_formatters]) simp_all
  then have a: "print_constant ex_formatters (Some (V_i 1036351)) Date = Inr ''2024-01-31''"
    by (simp add: z)
  have "print_constant ex_formatters (Some (V_i 0xFFFFFFFFFFFFF63F)) Date =
          Inr ((if (0::int) < - 5 then zero_pad 4 (nat (- 5))
                else if (- 5::int) < 0 then CHR ''-'' # zero_pad 4 (nat (- (- 5)))
                else ''00000'') @ ''-'' @ zero_pad 2 1 @ ''-'' @ zero_pad 2 31)"
    by (rule print_constant_date[OF _ _ _ _ e2, where fmt = ex_formatters]) simp_all
  then have b: "print_constant ex_formatters (Some (V_i 0xFFFFFFFFFFFFF63F)) Date = Inr ''-0005-01-31''"
    by (simp add: z)
  from a b show ?thesis by simp
qed

section \<open>Index seek returns the distance from begin\<close>

lemma lower_bound_from_partition:
  assumes "sorted ks" "first + count \<le> length ks"
    and "\<forall>i<first. ks ! i < key"
    and "\<forall>i. first + count \<le> i \<and> i < length ks \<longrightarrow> \<not> ks ! i < key"
  shows "first \<le> lower_bound_from ks key first count
         \<and> lower_bound_from ks key first count \<le> first + count
         \<and> (\<forall>i<lower_bound_from ks key first count. ks ! i < key)
         \<and> (\<forall>i. lower_bound_from ks key first count \<le> i \<and> i < length ks \<longrightarrow> \<not> ks ! i < key)"
  using assms
proof (induction ks key first count rule: lower_bound_from.induct)
  case (1 ks key first count)
  show ?case
  proof (cases "count = 0")
    case True
    with "1.prems" show ?thesis
      by (subst (1 2 3 4) lower_bound_from.simps) simp
  next
    case False
    define step where "step = count div 2"
    define it where "it = first + step"
    have it: "it < length ks" "step < count"
      using False "1.prems"(2) by (auto simp add: it_def step_def)
    show ?thesis
    proof (cases "ks ! it < key")
      case True
      have lo: "\<forall>i<Suc it. ks ! i < key"
      proof (intro allI impI)
        fix i assume "i < Suc it"
        then have "i \<le> it" by simp
        then have "ks ! i \<le> ks ! it"
          using "1.prems"(1) it(1) by (simp add: sorted_nth_mono)
        with True show "ks ! i < key" by simp
      qed
      have eq: "lower_bound_from ks key first count
                  = lower_bound_from ks key (Suc it) (count - Suc step)"
        using False True
        by (subst lower_bound_from.simps) (simp add: Let_def it_def step_def)
      have "Suc it + (count - Suc step) = first + count"
        using it(2) by (simp add: it_def)
      with "1.IH"(1)[OF False step_def it_def True "1.prems"(1) _ lo] "1.prems"(2,4)
      show ?thesis unfolding eq by (auto simp add: it_def)
    next
      case False
      note nlt = this
      have hi: "\<forall>i. first + step \<le> i \<and> i < length ks \<longrightarrow> \<not> ks ! i < key"
      proof (intro allI impI)
        fix i assume "first + step \<le> i \<and> i < length ks"
        then have "ks ! it \<le> ks ! i"
          using "1.prems"(1) by (simp add: sorted_nth_mono it_def)
        with nlt show "\<not> ks ! i < key" by auto
      qed
      have eq: "lower_bound_from ks key first count = lower_bound_from ks key first step"
        using \<open>count \<noteq> 0\<close> nlt
        by (subst lower_bound_from.simps) (simp add: Let_def it_def step_def)
      have "first + step \<le> length ks"
        using it(1) by (simp add: it_def)
      with "1.IH"(2)[OF \<open>count \<noteq> 0\<close> step_def it_def nlt "1.prems"(1) _ "1.prems"(3) hi] it(2)
      show ?thesis unfolding eq by auto
    qed
  qed
qed

lemma upper_bound_from_partition:
  assumes "sorted ks" "first + count \<le> length ks"
    and "\<forall>i<first. \<not> key < ks ! i"
    and "\<forall>i. first + count \<le> i \<and> i < length ks \<longrightarrow> key < ks ! i"
  shows "first \<le> upper_bound_from ks key first count
         \<and> upper_bound_from ks key first count \<le> first + count
         \<and> (\<forall>i<upper_bound_from ks key first count. \<not> key < ks ! i)
         \<and> (\<forall>i. upper_bound_from ks key first count \<le> i \<and> i < length ks \<longrightarrow> key < ks ! i)"
  using assms
proof (induction ks key first count rule: upper_bound_from.induct)
  case (1 ks key first count)
  show ?case
  proof (cases "count = 0")
    case True
    with "1.prems" show ?thesis
      by (subst (1 2 3 4) upper_bound_from.simps) simp
  next
    case False
    define step where "step = count div 2"
    define it where "it = first + step"
    have it: "it < length ks" "step < count"
      using False "1.prems"(2) by (auto simp add: it_def step_def)
    show ?thesis
    proof (cases "\<not> key < ks ! it")
      case True
      have lo: "\<forall>i<Suc it. \<not> key < ks ! i"
      proof (intro allI impI)
        fix i assume "i < Suc it"
        then have "i \<le> it" by simp
        then have "ks ! i \<le> ks ! it"
          using "1.prems"(1) it(1) by (simp add: sorted_nth_mono)
        with True show "\<not> key < ks ! i" by auto
      qed
      have eq: "upper_bound_from ks key first count
                  = upper_bound_from ks key (Suc it) (count - Suc step)"
        using False True
        by (subst upper_bound_from.simps) (simp add: Let_def it_def step_def)
      have "Suc it + (count - Suc step) = first + count"
        using it(2) by (simp add: it_def)
      with "1.IH"(1)[OF False step_def it_def True "1.prems"(1) _ lo] "1.prems"(2,4)
      show ?thesis unfolding eq by (auto simp add: it_def)
    next
      case False
      then have lt: "key < ks ! it" by simp
      have hi: "\<forall>i. first + step \<le> i \<and> i < length ks \<longrightarrow> key < ks ! i"
      proof (intro allI impI)
        fix i assume "first + step \<le> i \<and> i < length ks"
        then have "ks ! it \<le> ks ! i"
          using "1.prems"(1) by (simp add: sorted_nth_mono it_def)
        with lt show "key < ks ! i" by simp
      qed
      have eq: "upper_bound_from ks key first count = upper_bound_from ks key first step"
        using \<open>count \<noteq> 0\<close> lt
        by (subst upper_bound_from.simps) (simp add: Let_def it_def step_def)
      have "first + step \<le> length ks"
        using it(1) by (simp add: it_def)
      with "1.IH"(2)[OF \<open>count \<noteq> 0\<close> step_def it_def False "1.prems"(1) _ "1.prems"(3) hi] it(2)
      show ?thesis unfolding eq by auto
    qed
  qed
qed

lemma partition_point_filter:
  assumes "r \<le> length ks" "\<forall>i<r. P (ks ! i)" "\<forall>i. r \<le> i \<and> i < length ks \<longrightarrow> \<not> P (ks ! i)"
  shows "length (filter P ks) = r"
proof -
  have "filter P (take r ks) = take r ks"
    using assms(1,2) by (auto simp add: filter_id_conv in_set_conv_nth)
  moreover have "filter P (drop r ks) = []"
    using assms(1,3) by (auto simp add: filter_empty_conv in_set_conv_nth)
  moreover have "filter P ks = filter P (take r ks) @ filter P (drop r ks)"
    by (metis append_take_drop_id filter_append)
  ultimately show ?thesis using assms(1) by simp
qed

lemma lower_bound_from_le: "lower_bound_from ks key first count \<le> first + count"
proof (induction ks key first count rule: lower_bound_from.induct)
  case (1 ks key first count)
  show ?case
  proof (cases "count = 0")
    case True
    then show ?thesis by (subst lower_bound_from.simps) simp
  next
    case False
    have "count div 2 < count" using False by simp
    with "1.IH"[OF False refl refl] False show ?thesis
      by (subst lower_bound_from.simps) (auto simp add: Let_def)
  qed
qed

lemma upper_bound_from_le: "upper_bound_from ks key first count \<le> first + count"
proof (induction ks key first count rule: upper_bound_from.induct)
  case (1 ks key first count)
  show ?case
  proof (cases "count = 0")
    case True
    then show ?thesis by (subst upper_bound_from.simps) simp
  next
    case False
    have "count div 2 < count" using False by simp
    with "1.IH"[OF False refl refl] False show ?thesis
      by (subst upper_bound_from.simps) (auto simp add: Let_def)
  qed
qed


lemma lower_bound_sorted:
  assumes "sorted (map fst (idx_entries index))"
  shows "lower_bound index key = length (filter (\<lambda>e. fst e < key) (idx_entries index))"
proof -
  let ?ks = "map fst (idx_entries index)"
  have "0 \<le> lower_bound_from ?ks key 0 (length (idx_entries index))
         \<and> lower_bound_from ?ks key 0 (length (idx_entries index)) \<le> 0 + length (idx_entries index)
         \<and> (\<forall>i<lower_bound_from ?ks key 0 (length (idx_entries index)). ?ks ! i < key)
         \<and> (\<forall>i. lower_bound_from ?ks key 0 (length (idx_entries index)) \<le> i \<and> i < length ?ks
                \<longrightarrow> \<not> ?ks ! i < key)"
    by (rule lower_bound_from_partition) (use assms in auto)
  then have q: "lower_bound index key \<le> 0 + length ?ks"
    "\<forall>i<lower_bound index key. ?ks ! i < key"
    "\<forall>i. lower_bound index key \<le> i \<and> i < length ?ks \<longrightarrow> \<not> ?ks ! i < key"
    unfolding lower_bound_def length_map by blast+
  have p1: "lower_bound index key \<le> length ?ks"
    using q(1) by simp
  note p = p1 q(2,3)
  have "length (filter (\<lambda>k. k < key) ?ks) = lower_bound index key"
    using p by (rule partition_point_filter)
  then show ?thesis
    by (simp add: filter_map comp_def)
qed

lemma upper_bound_sorted:
  assumes "sorted (map fst (idx_entries index))"
  shows "upper_bound index key = length (filter (\<lambda>e. \<not> key < fst e) (idx_entries index))"
proof -
  let ?ks = "map fst (idx_entries index)"
  have "0 \<le> upper_bound_from ?ks key 0 (length (idx_entries index))
         \<and> upper_bound_from ?ks key 0 (length (idx_entries index)) \<le> 0 + length (idx_entries index)
         \<and> (\<forall>i<upper_bound_from ?ks key 0 (length (idx_entries index)). \<not> key < ?ks ! i)
         \<and> (\<forall>i. upper_bound_from ?ks key 0 (length (idx_entries index)) \<le> i \<and> i < length ?ks
                \<longrightarrow> key < ?ks ! i)"
    by (rule upper_bound_from_partition) (use assms in auto)
  then have q: "upper_bound index key \<le> 0 + length ?ks"
    "\<forall>i<upper_bound index key. \<not> key < ?ks ! i"
    "\<forall>i. upper_bound index key \<le> i \<and> i < length ?ks \<longrightarrow> \<not> \<not> key < ?ks ! i"
    unfolding upper_bound_def length_map by blast+
  have p1: "upper_bound index key \<le> length ?ks"
    using q(1) by simp
  note p = p1 q(2,3)
  have "length (filter (\<lambda>k. \<not> key < k) ?ks) = upper_bound index key"
    using p by (rule partition_point_filter)
  then show ?thesis
    by (simp add: filter_map comp_def)
qed

lemma unat_word_of_nat_32: "n < 2 ^ 32 \<Longrightarrow> unat (word_of_nat n :: 32 word) = n"
  by (simp add: unsigned_of_nat take_bit_nat_eq_self)

text \<open>
  C6.  For an index id of the context whose handle has the kind and key type of the
  callback, and for every key, \<open>idx_lower_bound_...\<close> and \<open>idx_upper_bound_...\<close> return
  as a \<open>u32\<close> the distance from \<open>begin()\<close> to the position \<open>lower_bound(key)\<close>
  (respectively \<open>upper_bound(key)\<close>) gives.  Over entries in key order these are the
  number of entries with a key below \<open>key\<close>, and the number with a key not above it.
\<close>

theorem index_seek_distance:
  assumes "contexts module_id = Some ctx"
    and "index_id < length (indexes ctx)"
    and "idx_kind (indexes ctx ! index_id) = IDX"
    and "idx_key_type (indexes ctx ! index_id) = KEY"
    and "length (idx_entries (indexes ctx ! index_id)) < 2 ^ 32"
  shows "(\<exists>w. index_seek IDX KEY True contexts module_id index_id key = Inr w
              \<and> unat w = distance (begin_pos (indexes ctx ! index_id))
                                  (lower_bound (indexes ctx ! index_id) key))
       \<and> (\<exists>w. index_seek IDX KEY False contexts module_id index_id key = Inr w
              \<and> unat w = distance (begin_pos (indexes ctx ! index_id))
                                  (upper_bound (indexes ctx ! index_id) key))
       \<and> (sorted (map fst (idx_entries (indexes ctx ! index_id))) \<longrightarrow>
            distance (begin_pos (indexes ctx ! index_id)) (lower_bound (indexes ctx ! index_id) key)
              = length (filter (\<lambda>e. fst e < key) (idx_entries (indexes ctx ! index_id)))
          \<and> distance (begin_pos (indexes ctx ! index_id)) (upper_bound (indexes ctx ! index_id) key)
              = length (filter (\<lambda>e. \<not> key < fst e) (idx_entries (indexes ctx ! index_id))))"
proof -
  let ?index = "indexes ctx ! index_id"
  have l: "lower_bound ?index key < 2 ^ 32"
    using lower_bound_from_le[of "map fst (idx_entries ?index)" key 0 "length (idx_entries ?index)"]
      assms(5) by (simp add: lower_bound_def)
  have u: "upper_bound ?index key < 2 ^ 32"
    using upper_bound_from_le[of "map fst (idx_entries ?index)" key 0 "length (idx_entries ?index)"]
      assms(5) by (simp add: upper_bound_def)
  have a: "index_seek IDX KEY True contexts module_id index_id key
             = Inr (word_of_nat (lower_bound ?index key))"
    using assms(1-4) l
    by (simp add: index_seek_def Get_Wasm_Context_By_ID_def err_bind_def M_insist_def
          distance_def begin_pos_def)
  have b: "index_seek IDX KEY False contexts module_id index_id key
             = Inr (word_of_nat (upper_bound ?index key))"
    using assms(1-4) u
    by (simp add: index_seek_def Get_Wasm_Context_By_ID_def err_bind_def M_insist_def
          distance_def begin_pos_def)
  show ?thesis
    using l u by (simp add: a b unat_word_of_nat_32 distance_def begin_pos_def
        lower_bound_sorted upper_bound_sorted)
qed

theorem index_seek_distance_witness:
  "index_seek ArrayIndex Key_i4 True [0 \<mapsto> ex_index_context] 0 0 3 = Inr 1
   \<and> index_seek ArrayIndex Key_i4 False [0 \<mapsto> ex_index_context] 0 0 3 = Inr 3"
proof -
  have lb: "lower_bound ex_index 3 = 1" by code_simp
  have ub: "upper_bound ex_index 3 = 3" by code_simp
  have h: "[0 \<mapsto> ex_index_context] 0 = Some ex_index_context"
    "0 < length (indexes ex_index_context)"
    "idx_kind (indexes ex_index_context ! 0) = ArrayIndex"
    "idx_key_type (indexes ex_index_context ! 0) = Key_i4"
    "length (idx_entries (indexes ex_index_context ! 0)) < 2 ^ 32"
    by (simp_all add: ex_index_context_def ex_index_def)
  have i: "indexes ex_index_context ! 0 = ex_index"
    by (simp add: ex_index_context_def)
  from index_seek_distance[where contexts = "[0 \<mapsto> ex_index_context]" and module_id = 0
      and ctx = ex_index_context and index_id = 0 and key = 3, OF h] obtain w1 w2 where
    w1: "index_seek ArrayIndex Key_i4 True [0 \<mapsto> ex_index_context] 0 0 3 = Inr w1"
        "unat w1 = 1"
    and w2: "index_seek ArrayIndex Key_i4 False [0 \<mapsto> ex_index_context] 0 0 3 = Inr w2"
        "unat w2 = 3"
    unfolding i lb ub distance_def begin_pos_def by auto
  have "w1 = 1" using w1(2) by (simp add: word_unat_eq_iff)
  moreover have "w2 = 3" using w2(2) by (simp add: word_unat_eq_iff)
  ultimately show ?thesis using w1(1) w2(1) by simp
qed


section \<open>String literals in the arena\<close>

lemma write_bytes_outside:
  "x < a \<or> a + length bs \<le> x \<Longrightarrow> write_bytes mem a bs x = mem x"
  by (induction bs arbitrary: mem a) auto

lemma write_bytes_inside:
  "i < length bs \<Longrightarrow> write_bytes mem a bs (a + i) = bs ! i"
proof (induction bs arbitrary: mem a i)
  case Nil
  then show ?case by simp
next
  case (Cons c cs)
  show ?case
  proof (cases i)
    case 0
    then show ?thesis by (simp add: write_bytes_outside)
  next
    case (Suc j)
    with Cons.prems have "j < length cs" by simp
    then have "write_bytes (mem(a := c)) (Suc a) cs (Suc a + j) = cs ! j"
      by (rule Cons.IH)
    with Suc show ?thesis by simp
  qed
qed

lemma map_write_bytes:
  "map (write_bytes mem a bs) [a..<a + length bs] = bs"
  by (rule nth_equalityI) (simp_all add: write_bytes_inside)

lemma copy_literals_Cons:
  "copy_literals start (l # ls) (mem, dst, lits) =
     copy_literals start ls
       (write_bytes mem dst (c_str l @ [NUL]), Suc (dst + strlen l),
        lits(l \<mapsto> start + (dst - start)))"
  by (simp add: stpcpy_def)

lemma copy_literals_below:
  "x < dst \<Longrightarrow> fst (copy_literals start ls (mem, dst, lits)) x = mem x"
proof (induction ls arbitrary: mem dst lits)
  case Nil
  then show ?case by simp
next
  case (Cons l ls)
  have "fst (copy_literals start ls
          (write_bytes mem dst (c_str l @ [NUL]), Suc (dst + strlen l),
           lits(l \<mapsto> start + (dst - start)))) x
        = write_bytes mem dst (c_str l @ [NUL]) x"
    using Cons.prems by (intro Cons.IH) simp
  also have "\<dots> = mem x"
    using Cons.prems by (simp add: write_bytes_outside)
  finally show ?case by (simp only: copy_literals_Cons)
qed

lemma copy_literals_absent:
  "s \<notin> set ls \<Longrightarrow> snd (snd (copy_literals start ls (mem, dst, lits))) s = lits s"
proof (induction ls arbitrary: mem dst lits)
  case Nil
  then show ?case by simp
next
  case (Cons l ls)
  then have "s \<notin> set ls" "s \<noteq> l" by auto
  from Cons.IH[OF this(1)] this(2) show ?case
    by (simp only: copy_literals_Cons) simp
qed

lemma copy_literals_written:
  "map (fst (copy_literals start ls
          (write_bytes mem dst (c_str l @ [NUL]), Suc (dst + strlen l), lits')))
       [dst..<Suc (dst + strlen l)] = c_str l @ [NUL]"
proof -
  have "map (fst (copy_literals start ls
          (write_bytes mem dst (c_str l @ [NUL]), Suc (dst + strlen l), lits')))
       [dst..<Suc (dst + strlen l)]
        = map (write_bytes mem dst (c_str l @ [NUL])) [dst..<Suc (dst + strlen l)]"
    by (rule map_cong[OF refl]) (auto simp add: copy_literals_below)
  also have "\<dots> = c_str l @ [NUL]"
    using map_write_bytes[of mem dst "c_str l @ [NUL]"] by (simp add: strlen_def)
  finally show ?thesis .
qed

lemma copy_literals_region:
  "map (fst (copy_literals start ls (mem, dst, lits)))
       [dst..<dst + sum_list (map (\<lambda>l. strlen l + 1) ls)]
     = concat (map (\<lambda>l. c_str l @ [NUL]) ls)"
proof (induction ls arbitrary: mem dst lits)
  case Nil
  then show ?case by simp
next
  case (Cons l ls)
  let ?m1 = "write_bytes mem dst (c_str l @ [NUL])"
  let ?d1 = "Suc (dst + strlen l)"
  let ?rest = "sum_list (map (\<lambda>l. strlen l + 1) ls)"
  let ?f = "fst (copy_literals start ls (?m1, ?d1, lits(l \<mapsto> start + (dst - start))))"
  have "dst + sum_list (map (\<lambda>l. strlen l + 1) (l # ls)) = ?d1 + ?rest"
    by simp
  moreover have "[dst..<?d1 + ?rest] = [dst..<?d1] @ [?d1..<?d1 + ?rest]"
    by (rule upt_add_eq_append) simp
  ultimately have split:
    "[dst..<dst + sum_list (map (\<lambda>l. strlen l + 1) (l # ls))] = [dst..<?d1] @ [?d1..<?d1 + ?rest]"
    by (simp only:)
  have a: "map ?f [dst..<?d1] = c_str l @ [NUL]"
    by (rule copy_literals_written)
  have b: "map ?f [?d1..<?d1 + ?rest] = concat (map (\<lambda>l. c_str l @ [NUL]) ls)"
    by (rule Cons.IH)
  have "map ?f [dst..<dst + sum_list (map (\<lambda>l. strlen l + 1) (l # ls))]
          = (c_str l @ [NUL]) @ concat (map (\<lambda>l. c_str l @ [NUL]) ls)"
    by (simp only: split map_append a b)
  then show ?case
    by (simp only: copy_literals_Cons list.map concat.simps)
qed

lemma copy_literals_entry:
  assumes "s \<in> set ls" "start \<le> dst"
  shows "\<exists>off. snd (snd (copy_literals start ls (mem, dst, lits))) s = Some off
           \<and> dst \<le> off
           \<and> Suc (off + strlen s) \<le> dst + sum_list (map (\<lambda>l. strlen l + 1) ls)
           \<and> map (fst (copy_literals start ls (mem, dst, lits))) [off..<Suc (off + strlen s)]
               = c_str s @ [NUL]"
  using assms
proof (induction ls arbitrary: mem dst lits)
  case Nil
  then show ?case by simp
next
  case (Cons l ls)
  let ?m1 = "write_bytes mem dst (c_str l @ [NUL])"
  let ?d1 = "Suc (dst + strlen l)"
  let ?l1 = "lits(l \<mapsto> start + (dst - start))"
  let ?rest = "sum_list (map (\<lambda>l. strlen l + 1) ls)"
  have total: "dst + sum_list (map (\<lambda>l. strlen l + 1) (l # ls)) = ?d1 + ?rest"
    by simp
  show ?case
  proof (cases "s \<in> set ls")
    case True
    have "start \<le> ?d1" using Cons.prems by simp
    from Cons.IH[OF True this] obtain off where
      "snd (snd (copy_literals start ls (?m1, ?d1, ?l1))) s = Some off"
      "?d1 \<le> off"
      "Suc (off + strlen s) \<le> ?d1 + ?rest"
      "map (fst (copy_literals start ls (?m1, ?d1, ?l1))) [off..<Suc (off + strlen s)] = c_str s @ [NUL]"
      by blast
    then have "snd (snd (copy_literals start ls (?m1, ?d1, ?l1))) s = Some off
           \<and> dst \<le> off
           \<and> Suc (off + strlen s) \<le> ?d1 + ?rest
           \<and> map (fst (copy_literals start ls (?m1, ?d1, ?l1))) [off..<Suc (off + strlen s)]
               = c_str s @ [NUL]"
      by simp
    then show ?thesis
      unfolding copy_literals_Cons total by (rule exI)
  next
    case False
    with Cons.prems have sl: "s = l" by simp
    have m: "snd (snd (copy_literals start ls (?m1, ?d1, ?l1))) s = Some dst"
      using False Cons.prems(2) by (simp add: copy_literals_absent sl)
    have r: "map (fst (copy_literals start ls (?m1, ?d1, ?l1))) [dst..<Suc (dst + strlen s)]
                       = c_str s @ [NUL]"
      unfolding sl by (rule copy_literals_written)
    have "snd (snd (copy_literals start ls (?m1, ?d1, ?l1))) s = Some dst
           \<and> dst \<le> dst
           \<and> Suc (dst + strlen s) \<le> ?d1 + ?rest
           \<and> map (fst (copy_literals start ls (?m1, ?d1, ?l1))) [dst..<Suc (dst + strlen s)]
               = c_str s @ [NUL]"
      using m r by (simp add: sl)
    then show ?thesis
      unfolding copy_literals_Cons total by (rule exI)
  qed
qed


lemma emplace_distinct: "distinct ls \<Longrightarrow> distinct (emplace s ls)"
  by (simp add: emplace_def)

lemma visit_expr_distinct:
  "visit_expr e ls = Inr ls' \<Longrightarrow> distinct ls \<Longrightarrow> distinct ls'"
proof (induction e arbitrary: ls ls')
  case (Constant c)
  then show ?case
    by (auto simp add: err_bind_def emplace_distinct split: if_splits sum.splits)
next
  case (BinaryExpr l r)
  then show ?case
    by (auto simp add: err_bind_def split: sum.splits)
qed auto

lemma visit_exprs_distinct:
  "visit_exprs es ls = Inr ls' \<Longrightarrow> distinct ls \<Longrightarrow> distinct ls'"
proof (induction es arbitrary: ls)
  case Nil
  then show ?case by simp
next
  case (Cons e es)
  then show ?case
    by (auto simp add: err_bind_def split: sum.splits dest: visit_expr_distinct)
qed

lemma visit_cnf_distinct:
  "visit_cnf f ls = Inr ls' \<Longrightarrow> distinct ls \<Longrightarrow> distinct ls'"
proof (induction f arbitrary: ls)
  case Nil
  then show ?case by simp
next
  case (Cons c cs)
  then show ?case
    by (auto simp add: err_bind_def split: sum.splits dest: visit_exprs_distinct)
qed

lemma visit_kind_distinct:
  "visit_kind k ls = Inr ls' \<Longrightarrow> distinct ls \<Longrightarrow> distinct ls'"
  by (cases k) (auto dest: visit_cnf_distinct visit_exprs_distinct)

lemma visit_op_distinct:
  "(visit_op p ls = Inr ls' \<longrightarrow> distinct ls \<longrightarrow> distinct ls')"
  "(recurse ps ls = Inr ls' \<longrightarrow> distinct ls \<longrightarrow> distinct ls')"
proof (induction p ls and ps ls arbitrary: ls' and ls' rule: visit_op_recurse.induct)
  case (1 k s cs ls)
  then show ?case
    by (auto simp add: err_bind_def split: sum.splits if_splits dest: visit_kind_distinct)
next
  case (2 ls)
  then show ?case by simp
next
  case (3 c cs ls)
  then show ?case
    by (auto simp add: err_bind_def split: sum.splits)
qed

lemma Collect_literals_distinct:
  assumes "Collect_literals iter root = Inr literals"
    and "\<And>ls. distinct ls \<Longrightarrow> distinct (iter ls) \<and> set (iter ls) = set ls"
  shows "distinct literals"
proof -
  from assms(1) obtain ls where v: "visit_op root [] = Inr ls" and l: "literals = iter ls"
    by (auto simp add: Collect_literals_def err_bind_def split: sum.splits)
  from visit_op_distinct(1)[of root "[]" ls] v have "distinct ls"
    by simp
  with assms(2) l show ?thesis by simp
qed

lemma Ceil_To_Next_Page_ge: "0 < P \<Longrightarrow> n \<le> Ceil_To_Next_Page P n"
proof -
  assume P: "0 < P"
  have "(n + P - 1) div P * P + (n + P - 1) mod P = n + P - 1"
    by (rule div_mult_mod_eq)
  moreover have "(n + P - 1) mod P < P"
    using P by simp
  ultimately have "n \<le> (n + P - 1) div P * P"
    by linarith
  then show ?thesis by (simp add: Ceil_To_Next_Page_def)
qed

lemma c_str_id: "NUL \<notin> set s \<Longrightarrow> c_str s = s"
  by (auto simp add: c_str_def takeWhile_eq_all_conv)

lemma Ceil_To_Next_Page_pos: "0 < P \<Longrightarrow> 0 < n \<Longrightarrow> 0 < Ceil_To_Next_Page P n"
proof -
  assume P: "0 < P" and n: "0 < n"
  then have "P \<le> n + P - 1" by simp
  then have "1 \<le> (n + P - 1) div P"
    using P by (metis div_le_mono div_self less_numeral_extra(3))
  with P show ?thesis by (simp add: Ceil_To_Next_Page_def)
qed


text \<open>
  C7.  When \<open>create_env\<close> has run, whatever the order in which the set of the collected
  literals is read (each element once): the literals are distinct; the region of the arena
  that starts at the context's heap (as it is after the tables are mapped) holds them one
  after the other in the order read, each followed by NUL, and the heap of the context has
  moved past that region; and every literal \<open>s\<close> has an offset recorded for the code
  generator, inside that region, at which the arena holds \<open>s\<close> followed by NUL.
\<close>

theorem create_env_literals:
  assumes "create_env S root context0 lits = Inr (context', lits', env)"
    and "0 < pagesize S"
    and "\<And>ls. distinct ls \<Longrightarrow>
            distinct (literal_iteration S ls) \<and> set (literal_iteration S ls) = set ls"
    and "Collect_literals (literal_iteration S) root = Inr literals"
  shows "distinct literals \<and>
         (let base = heap (fst (map_tables S (Collect_tables (table_iteration S) root)
                                  (context0, [])));
              bytes = sum_list (map (\<lambda>l. strlen l + 1) literals)
          in map (vm context') [base..<base + bytes] = concat (map (\<lambda>l. c_str l @ [NUL]) literals)
             \<and> base + bytes \<le> heap context'
             \<and> (\<forall>s\<in>set literals. \<exists>off.
                    lits' s = Some off \<and> base \<le> off \<and> Suc (off + strlen s) \<le> base + bytes
                    \<and> map (vm context') [off..<Suc (off + strlen s)] = c_str s @ [NUL]
                    \<and> (NUL \<notin> set s \<longrightarrow>
                          map (vm context') [off..<Suc (off + length s)] = s @ [NUL])))"
proof -
  obtain ctx env0 where
    mt: "map_tables S (Collect_tables (table_iteration S) root) (context0, []) = (ctx, env0)"
    by (cases "map_tables S (Collect_tables (table_iteration S) root) (context0, [])")
  let ?bytes = "sum_list (map (\<lambda>l. strlen l + 1) literals)"
  let ?aligned = "Ceil_To_Next_Page (pagesize S) ?bytes"
  let ?mem0 = "mmap_anon (vm ctx) (heap ctx) ?aligned"
  let ?res = "copy_literals (heap ctx) literals (?mem0, heap ctx, lits)"
  have d: "distinct literals"
    using assms(4,3) by (rule Collect_literals_distinct)
  show ?thesis
  proof (cases "literals = []")
    case True
    then have "context' = ctx"
      using assms(1)
      by (auto simp add: create_env_def mt assms(4) err_bind_def M_insist_def Let_def
            Ceil_To_Next_Page_def split: if_splits)
    with True d show ?thesis by (simp add: mt)
  next
    case False
    then have "0 < ?bytes" by (cases literals) simp_all
    then have al: "?aligned \<noteq> 0"
      using Ceil_To_Next_Page_pos[OF assms(2), of ?bytes] by simp
    obtain mem dst lits1 where res: "?res = (mem, dst, lits1)"
      by (cases ?res)
    have out: "vm context' = mem \<and> lits' = lits1 \<and> heap ctx + ?aligned \<le> heap context'"
      using assms(1) al res
      by (auto simp add: create_env_def mt assms(4) err_bind_def M_insist_def Let_def
            install_guard_page_def split: if_splits)
    have hp: "heap ctx + ?bytes \<le> heap context'"
      using out Ceil_To_Next_Page_ge[OF assms(2), of ?bytes] by linarith
    have mem: "mem = fst ?res" and l1: "lits1 = snd (snd ?res)"
      unfolding res by simp_all
    have region: "map mem [heap ctx..<heap ctx + ?bytes]
                    = concat (map (\<lambda>l. c_str l @ [NUL]) literals)"
      unfolding mem by (rule copy_literals_region)
    have entry: "\<exists>off. lits1 s = Some off \<and> heap ctx \<le> off
                   \<and> Suc (off + strlen s) \<le> heap ctx + ?bytes
                   \<and> map mem [off..<Suc (off + strlen s)] = c_str s @ [NUL]
                   \<and> (NUL \<notin> set s \<longrightarrow> map mem [off..<Suc (off + length s)] = s @ [NUL])"
      if s: "s \<in> set literals" for s
    proof -
      from copy_literals_entry[OF s order_refl, where mem = ?mem0 and lits = lits] obtain off where o:
        "lits1 s = Some off" "heap ctx \<le> off"
        "Suc (off + strlen s) \<le> heap ctx + ?bytes"
        "map mem [off..<Suc (off + strlen s)] = c_str s @ [NUL]"
        unfolding mem l1 by blast
      have "NUL \<notin> set s \<longrightarrow> map mem [off..<Suc (off + length s)] = s @ [NUL]"
        using o(4) by (auto simp add: strlen_def c_str_id)
      with o show ?thesis by blast
    qed
    show ?thesis
      using d region entry hp by (simp add: mt out Let_def)
  qed
qed


theorem create_env_literals_witness:
  "\<exists>ctx' lits' env.
      create_env ex_storage ex_literal_plan ex_fresh_context Map.empty = Inr (ctx', lits', env)
      \<and> visit_op ex_literal_plan [] = Inr [''ab'', ''x'']
      \<and> Collect_literals (literal_iteration ex_storage) ex_literal_plan = Inr [''x'', ''ab'']
      \<and> map (vm ctx') [0..<5] = ''x'' @ [NUL] @ ''ab'' @ [NUL]
      \<and> 5 \<le> heap ctx'
      \<and> (\<exists>off. lits' ''ab'' = Some off \<and> map (vm ctx') [off..<Suc (off + 2)] = ''ab'' @ [NUL])"
proof -
  have v: "visit_op ex_literal_plan [] = Inr [''ab'', ''x'']"
    by (simp add: ex_literal_plan_def err_bind_def is_string_def eval_def emplace_def)
  have c: "Collect_literals (literal_iteration ex_storage) ex_literal_plan = Inr [''x'', ''ab'']"
    by (simp add: Collect_literals_def v err_bind_def ex_storage_def)
  have t: "Collect_tables (table_iteration ex_storage) ex_literal_plan = []"
    by (simp add: Collect_tables_def ex_literal_plan_def ex_storage_def)
  have i: "distinct ls \<Longrightarrow>
             distinct (literal_iteration ex_storage ls) \<and> set (literal_iteration ex_storage ls) = set ls"
    for ls
    by (simp add: ex_storage_def)
  have n: "NUL \<notin> set ''x''" "NUL \<notin> set ''ab''"
    by (simp_all add: NUL_def)
  have len: "strlen ''x'' = 1" "strlen ''ab'' = 2"
    using n by (simp_all add: strlen_def c_str_id)
  have "\<exists>r. create_env ex_storage ex_literal_plan ex_fresh_context Map.empty = Inr r"
    using c t
    by (simp add: create_env_def ex_storage_def ex_fresh_context_def err_bind_def
          M_insist_def Is_Page_Aligned_def Ceil_To_Next_Page_def len Let_def
          install_guard_page_def split_beta)
  then obtain ctx' lits' env where
    r: "create_env ex_storage ex_literal_plan ex_fresh_context Map.empty = Inr (ctx', lits', env)"
    by (metis prod_cases3)
  have p: "0 < pagesize ex_storage"
    by (simp add: ex_storage_def)
  have b: "heap (fst (map_tables ex_storage (Collect_tables (table_iteration ex_storage)
                                               ex_literal_plan) (ex_fresh_context, [])))
             = 0"
    by (simp add: t ex_fresh_context_def)
  from create_env_literals[OF r p i c]
  have "map (vm ctx') [0..<5] = ''x'' @ [NUL] @ ''ab'' @ [NUL]"
    and "5 \<le> heap ctx'"
    and "\<exists>off. lits' ''ab'' = Some off \<and> map (vm ctx') [off..<Suc (off + 2)] = ''ab'' @ [NUL]"
    unfolding b Let_def using n by (auto simp add: len c_str_id)
  with r v c show ?thesis by blast
qed

section \<open>The reader: count 0 and the offset check\<close>

lemma payload_dup: "drop_constants (deduplicate (schema (ex_plan_dup k))) = [Entry ex_id (Numeric N_Int 32)]"
  by (simp add: ex_plan_dup_def deduplicate_def drop_constants_def has_def ex_id_def)

text \<open>
  C9.  A call of \<open>read_result_set\<close> with count 0 returns at once, whatever the offset
  and whatever the schema: the sinks and the record of reads of the result buffer are as
  before, and the check that relates the offset to the payload schema is not reached.
\<close>

theorem read_result_set_no_tuples:
  assumes "contexts module_id = Some ctx"
  shows "read_result_set fmt contexts module_id result_set_offset 0 io0 = Inr io0"
  using assms
  by (simp add: read_result_set_def Get_Wasm_Context_By_ID_def err_bind_def Let_def)

theorem read_result_set_no_tuples_witness:
  "read_result_set ex_formatters [0 \<mapsto> ex_context (ex_plan_dup PrintOperator)] 0 0 0 ex_io
     = Inr ex_io
   \<and> read_result_set ex_formatters [0 \<mapsto> ex_context (ex_plan_constants PrintOperator)] 0 64 0 ex_io
     = Inr ex_io"
  using read_result_set_no_tuples[of "[0 \<mapsto> ex_context (ex_plan_dup PrintOperator)]" 0
          "ex_context (ex_plan_dup PrintOperator)" ex_formatters 0 ex_io]
        read_result_set_no_tuples[of "[0 \<mapsto> ex_context (ex_plan_constants PrintOperator)]" 0
          "ex_context (ex_plan_constants PrintOperator)" ex_formatters 64 ex_io]
  by simp

text \<open>
  C1, as stated, fails: with count 0 the reader returns before its check, so a call with
  offset 0 and a payload schema that has an entry is not fatal.
\<close>

theorem read_result_set_assert_counterexample:
  "num_entries (drop_constants (deduplicate (schema (plan (ex_context (ex_plan_dup PrintOperator))))))
     \<noteq> 0
   \<and> read_result_set ex_formatters [0 \<mapsto> ex_context (ex_plan_dup PrintOperator)] 0 0 0 ex_io
       = Inr ex_io"
  by (simp add: read_result_set_def Get_Wasm_Context_By_ID_def err_bind_def Let_def
        ex_context_def payload_dup num_entries_def)

text \<open>
  C1, amended.  For every call of \<open>read_result_set\<close> with a count other than 0, the
  reader checks that the offset is 0 if and only if the payload schema (the schema of the
  root, deduplicated, without its constants) has no entry; when the two differ, the call
  ends in the failed check.
\<close>

theorem read_result_set_assert:
  assumes "contexts module_id = Some ctx"
    and "num_tuples \<noteq> 0"
    and "(result_set_offset = 0)
           \<noteq> (num_entries (drop_constants (deduplicate (schema (plan ctx)))) = 0)"
  shows "read_result_set fmt contexts module_id result_set_offset num_tuples io0
           = Inl (Insist_failed
               ''result set offset equals 0 (i.e. nullptr) iff schema contains only constants'')"
  using assms
  by (cases "result_set_offset = 0";
      cases "num_entries (drop_constants (deduplicate (schema (plan ctx)))) = 0")
     (simp_all add: read_result_set_def Get_Wasm_Context_By_ID_def err_bind_def Let_def
        M_insist_def)

theorem read_result_set_assert_witness:
  "read_result_set ex_formatters [0 \<mapsto> ex_context (ex_plan_dup PrintOperator)] 0 0 3 ex_io
     = Inl (Insist_failed
         ''result set offset equals 0 (i.e. nullptr) iff schema contains only constants'')"
proof -
  have "((0 :: 32 word) = 0)
          \<noteq> (num_entries (drop_constants (deduplicate (schema (plan (ex_context (ex_plan_dup PrintOperator)))))) = 0)"
    by (simp add: ex_context_def payload_dup num_entries_def)
  then show ?thesis
    by (intro read_result_set_assert[where ctx = "ex_context (ex_plan_dup PrintOperator)"]) simp_all
qed

section \<open>The engine driver: cleanup and the trailer\<close>

lemma execute_completed:
  assumes "execute fmt S opts g p st = (None, st')"
    and "cdt_port opts < 1024" "\<not> inspector_client st"
  shows "\<exists>reg io1.
           run_calls fmt g reg (NEXT_MODULE_ID st) (calls g) (eio st) = (None, io1)
           \<and> eio st' = print_total opts p (main_result g) io1
           \<and> wasm_contexts st' = wasm_contexts st
           \<and> wasm_contexts st (NEXT_MODULE_ID st) = None
           \<and> module st' = None \<and> codegen st' = None \<and> entered st' = entered st"
proof -
  let ?id = "NEXT_MODULE_ID st"
  have fresh: "wasm_contexts st ?id = None"
    using assms(1)
    by (cases "wasm_contexts st ?id")
       (simp_all add: execute_def stage_def Let_def Create_Wasm_Context_For_ID_def)
  have upd: "(wasm_contexts st)(?id := None) = wasm_contexts st"
    using fresh by (simp add: fun_upd_idem)
  show ?thesis
    using assms fresh
    by (auto simp add: execute_def stage_def Let_def Create_Wasm_Context_For_ID_def
          Get_Wasm_Context_By_ID_def Dispose_Wasm_Context_def upd
          split: sum.splits prod.splits option.splits if_splits)
       blast
qed


lemma execute_failed:
  assumes "execute fmt S opts g p st = (Some e, st')"
    and "cdt_port opts < 1024" "\<not> inspector_client st"
  shows "wasm_contexts st' (NEXT_MODULE_ID st) \<noteq> None
         \<and> module st' = Some (NEXT_MODULE_ID st)
         \<and> entered st' = Suc (entered st)"
  using assms
  by (auto simp add: execute_def stage_def Let_def Create_Wasm_Context_For_ID_def
        Get_Wasm_Context_By_ID_def Dispose_Wasm_Context_def
        split: sum.splits prod.splits option.splits if_splits)

text \<open>
  C4, amended.  For every query that \<open>execute\<close> runs without an inspector (the port is
  below 1024 and no inspector is set): when \<open>execute\<close> comes to its end, the Wasm context
  is disposed, the module and the code generation context are disposed and the isolate is
  exited as often as it was entered, so the registry is the one from before the query,
  and so is its size; when a failure leaves \<open>execute\<close> (a typed exception raised through
  \<open>throw\<close>, or any other), none of this has happened: the context of the query is
  registered, the module lives and the isolate is entered once more than before.
\<close>

theorem execute_cleanup:
  assumes "execute fmt S opts g p st = (r, st')"
    and "cdt_port opts < 1024" "\<not> inspector_client st"
  shows "(r = None \<longrightarrow>
            wasm_contexts st' = wasm_contexts st
            \<and> card (dom (wasm_contexts st')) = card (dom (wasm_contexts st))
            \<and> wasm_contexts st' (NEXT_MODULE_ID st) = None
            \<and> module st' = None \<and> codegen st' = None \<and> entered st' = entered st)
       \<and> (r \<noteq> None \<longrightarrow>
            wasm_contexts st' (NEXT_MODULE_ID st) \<noteq> None
            \<and> module st' = Some (NEXT_MODULE_ID st)
            \<and> entered st' = Suc (entered st))"
proof (cases r)
  case None
  with execute_completed[OF assms(1)[unfolded None] assms(2,3)] show ?thesis by auto
next
  case (Some e)
  with execute_failed[OF assms(1)[unfolded Some] assms(2,3)] show ?thesis by auto
qed

text \<open>
  C5, amended.  For every completed query that \<open>execute\<close> runs without an inspector (the
  port is below 1024 and no inspector is set) whose matched root is a print sink: after
  \<open>main\<close> has returned, with the sinks as its callbacks left them, the driver appends
  \<open><n> rows\<close> and a newline to the stream of the sink, \<open>n\<close> being the row count \<open>main\<close>
  returned, unless the quiet option is set; it writes nothing else.
\<close>

theorem execute_print_rows_line:
  assumes "execute fmt S opts g p st = (None, st')"
    and "cdt_port opts < 1024" "\<not> inspector_client st"
    and "kind p = PrintOperator"
  shows "\<exists>reg io1.
           run_calls fmt g reg (NEXT_MODULE_ID st) (calls g) (eio st) = (None, io1)
           \<and> print_out (eio st')
               = print_out io1
                 @ (if quiet opts then []
                    else show_nat (unat (main_result g)) @ '' rows'' @ [CHR 0x0A])
           \<and> noop_out (eio st') = noop_out io1
           \<and> callback_rows (eio st') = callback_rows io1
           \<and> buffer_reads (eio st') = buffer_reads io1"
proof -
  from execute_completed[OF assms(1-3)] obtain reg io1 where
    r: "run_calls fmt g reg (NEXT_MODULE_ID st) (calls g) (eio st) = (None, io1)"
    and e: "eio st' = print_total opts p (main_result g) io1"
    by blast
  have "print_out (eio st')
          = print_out io1
            @ (if quiet opts then [] else show_nat (unat (main_result g)) @ '' rows'' @ [CHR 0x0A])"
    "noop_out (eio st') = noop_out io1"
    "callback_rows (eio st') = callback_rows io1"
    "buffer_reads (eio st') = buffer_reads io1"
    unfolding e using assms(4) by (simp_all add: print_total_def rows_line_def)
  with r show ?thesis by blast
qed

text \<open>
  C10, amended.  When \<open>execute\<close> runs a query to its end without an inspector (the port
  is below 1024 and no inspector is set), the matched root is a no-op sink and the quiet
  option is not set, the driver appends \<open><n> rows\<close> and a newline, \<open>n\<close> being the row
  count \<open>main\<close> returned, to the stream of the no-op operator, as it does for a print
  sink.
\<close>

theorem execute_noop_rows_line:
  assumes "execute fmt S opts g p st = (None, st')"
    and "cdt_port opts < 1024" "\<not> inspector_client st"
    and "kind p = NoOpOperator" "\<not> quiet opts"
  shows "\<exists>reg io1.
           run_calls fmt g reg (NEXT_MODULE_ID st) (calls g) (eio st) = (None, io1)
           \<and> noop_out (eio st')
               = noop_out io1 @ show_nat (unat (main_result g)) @ '' rows'' @ [CHR 0x0A]
           \<and> print_out (eio st') = print_out io1
           \<and> callback_rows (eio st') = callback_rows io1
           \<and> buffer_reads (eio st') = buffer_reads io1"
proof -
  from execute_completed[OF assms(1-3)] obtain reg io1 where
    r: "run_calls fmt g reg (NEXT_MODULE_ID st) (calls g) (eio st) = (None, io1)"
    and e: "eio st' = print_total opts p (main_result g) io1"
    by blast
  have "noop_out (eio st')
          = noop_out io1 @ show_nat (unat (main_result g)) @ '' rows'' @ [CHR 0x0A]"
    "print_out (eio st') = print_out io1"
    "callback_rows (eio st') = callback_rows io1"
    "buffer_reads (eio st') = buffer_reads io1"
    unfolding e using assms(4,5) by (simp_all add: print_total_def rows_line_def)
  with r show ?thesis by blast
qed



lemma ex_throw_eval:
  "case execute ex_formatters ex_storage (ex_options 0) (ex_generated [Call_throw 0 0] 0)
          (ex_plan_dup PrintOperator) ex_engine of
     (r, s) \<Rightarrow>
       r = Some (Wasm_exception 0 (''q.cpp:7: Exception `failed_unittest_check` thrown.  check.''
                                   @ [CHR 0x0A]))
       \<and> wasm_contexts s 0 \<noteq> None \<and> module s = Some 0 \<and> entered s = 1"
  by code_simp

lemma ex_inspector_eval:
  "case execute ex_formatters ex_storage (ex_options 9229) (ex_generated [] 0)
          (ex_plan_dup PrintOperator) ex_engine of
     (r, s) \<Rightarrow> r = None \<and> wasm_contexts s 0 \<noteq> None \<and> module s = Some 0 \<and> entered s = 1"
  by code_simp

lemma ex_print_eval:
  "case execute ex_formatters ex_storage (ex_options 0)
          (ex_generated [Call_read_result_set 64 2] 2) (ex_plan_dup PrintOperator) ex_engine of
     (r, s) \<Rightarrow>
       r = None
       \<and> print_out (eio s) = ''7,7'' @ [CHR 0x0A] @ ''8,8'' @ [CHR 0x0A] @ ''2 rows'' @ [CHR 0x0A]"
  by code_simp

lemma ex_noop_eval:
  "case execute ex_formatters ex_storage (ex_options 0)
          (ex_generated [Call_read_result_set 64 2] 2) (ex_plan_dup NoOpOperator) ex_engine of
     (r, s) \<Rightarrow> r = None \<and> noop_out (eio s) = ''2 rows'' @ [CHR 0x0A]"
  by code_simp

lemma ex_inspector_print_eval:
  "case execute ex_formatters ex_storage (ex_options 9229)
          (ex_generated [Call_read_result_set 64 2] 2) (ex_plan_dup PrintOperator) ex_engine of
     (r, s) \<Rightarrow> r = None \<and> print_out (eio s) = []"
  by code_simp

lemma ex_inspector_noop_eval:
  "case execute ex_formatters ex_storage (ex_options 9229)
          (ex_generated [Call_read_result_set 64 2] 2) (ex_plan_dup NoOpOperator) ex_engine of
     (r, s) \<Rightarrow> r = None \<and> noop_out (eio s) = []"
  by code_simp

text \<open>
  C4, as stated, fails.  A guest that raises a typed exception through \<open>throw\<close> leaves
  \<open>execute\<close> by that exception: the context of the query is still registered, the module
  lives and the isolate is still entered.  With a debugging port, \<open>execute\<close> returns
  after the inspector ran, in the same state.
\<close>

theorem execute_cleanup_counterexample:
  "fst (execute ex_formatters ex_storage (ex_options 0) (ex_generated [Call_throw 0 0] 0)
          (ex_plan_dup PrintOperator) ex_engine)
     = Some (Wasm_exception 0 (''q.cpp:7: Exception `failed_unittest_check` thrown.  check.''
                               @ [CHR 0x0A]))
   \<and> wasm_contexts ex_engine 0 = None
   \<and> wasm_contexts (snd (execute ex_formatters ex_storage (ex_options 0)
          (ex_generated [Call_throw 0 0] 0) (ex_plan_dup PrintOperator) ex_engine)) 0 \<noteq> None
   \<and> module (snd (execute ex_formatters ex_storage (ex_options 0)
          (ex_generated [Call_throw 0 0] 0) (ex_plan_dup PrintOperator) ex_engine)) = Some 0
   \<and> entered ex_engine = 0
   \<and> entered (snd (execute ex_formatters ex_storage (ex_options 0)
          (ex_generated [Call_throw 0 0] 0) (ex_plan_dup PrintOperator) ex_engine)) = 1
   \<and> fst (execute ex_formatters ex_storage (ex_options 9229) (ex_generated [] 0)
          (ex_plan_dup PrintOperator) ex_engine) = None
   \<and> wasm_contexts (snd (execute ex_formatters ex_storage (ex_options 9229)
          (ex_generated [] 0) (ex_plan_dup PrintOperator) ex_engine)) 0 \<noteq> None
   \<and> module (snd (execute ex_formatters ex_storage (ex_options 9229)
          (ex_generated [] 0) (ex_plan_dup PrintOperator) ex_engine)) = Some 0
   \<and> entered (snd (execute ex_formatters ex_storage (ex_options 9229)
          (ex_generated [] 0) (ex_plan_dup PrintOperator) ex_engine)) = 1"
  using ex_throw_eval ex_inspector_eval
  by (simp add: case_prod_unfold ex_engine_def)

theorem execute_cleanup_witness:
  "fst (execute ex_formatters ex_storage (ex_options 0)
          (ex_generated [Call_read_result_set 64 2] 2) (ex_plan_dup PrintOperator) ex_engine) = None
   \<and> wasm_contexts (snd (execute ex_formatters ex_storage (ex_options 0)
          (ex_generated [Call_read_result_set 64 2] 2) (ex_plan_dup PrintOperator) ex_engine))
       = wasm_contexts ex_engine
   \<and> module (snd (execute ex_formatters ex_storage (ex_options 0)
          (ex_generated [Call_read_result_set 64 2] 2) (ex_plan_dup PrintOperator) ex_engine)) = None
   \<and> entered (snd (execute ex_formatters ex_storage (ex_options 0)
          (ex_generated [Call_read_result_set 64 2] 2) (ex_plan_dup PrintOperator) ex_engine))
       = entered ex_engine
   \<and> fst (execute ex_formatters ex_storage (ex_options 0) (ex_generated [Call_throw 0 0] 0)
          (ex_plan_dup PrintOperator) ex_engine) \<noteq> None
   \<and> module (snd (execute ex_formatters ex_storage (ex_options 0)
          (ex_generated [Call_throw 0 0] 0) (ex_plan_dup PrintOperator) ex_engine))
       = Some (NEXT_MODULE_ID ex_engine)
   \<and> entered (snd (execute ex_formatters ex_storage (ex_options 0)
          (ex_generated [Call_throw 0 0] 0) (ex_plan_dup PrintOperator) ex_engine))
       = Suc (entered ex_engine)"
proof -
  let ?r = "execute ex_formatters ex_storage (ex_options 0)
              (ex_generated [Call_read_result_set 64 2] 2) (ex_plan_dup PrintOperator) ex_engine"
  let ?t = "execute ex_formatters ex_storage (ex_options 0) (ex_generated [Call_throw 0 0] 0)
              (ex_plan_dup PrintOperator) ex_engine"
  have f: "fst ?r = None"
    using ex_print_eval by (simp add: case_prod_unfold)
  have g: "fst ?t \<noteq> None"
    using ex_throw_eval by (simp add: case_prod_unfold)
  have e: "?r = (fst ?r, snd ?r)" "?t = (fst ?t, snd ?t)"
    by simp_all
  have h: "cdt_port (ex_options 0) < 1024" "\<not> inspector_client ex_engine"
    by (simp_all add: ex_options_def ex_engine_def)
  from execute_cleanup[OF e(1) h] execute_cleanup[OF e(2) h] f g show ?thesis
    by simp
qed

theorem execute_print_rows_line_witness:
  "fst (execute ex_formatters ex_storage (ex_options 0)
          (ex_generated [Call_read_result_set 64 2] 2) (ex_plan_dup PrintOperator) ex_engine) = None
   \<and> (\<exists>io1 :: io. print_out (eio (snd (execute ex_formatters ex_storage (ex_options 0)
          (ex_generated [Call_read_result_set 64 2] 2) (ex_plan_dup PrintOperator) ex_engine)))
         = print_out io1 @ ''2 rows'' @ [CHR 0x0A])
   \<and> print_out (eio (snd (execute ex_formatters ex_storage (ex_options 0)
          (ex_generated [Call_read_result_set 64 2] 2) (ex_plan_dup PrintOperator) ex_engine)))
       = ''7,7'' @ [CHR 0x0A] @ ''8,8'' @ [CHR 0x0A] @ ''2 rows'' @ [CHR 0x0A]"
proof -
  let ?r = "execute ex_formatters ex_storage (ex_options 0)
              (ex_generated [Call_read_result_set 64 2] 2) (ex_plan_dup PrintOperator) ex_engine"
  have f: "fst ?r = None"
    and o: "print_out (eio (snd ?r))
              = ''7,7'' @ [CHR 0x0A] @ ''8,8'' @ [CHR 0x0A] @ ''2 rows'' @ [CHR 0x0A]"
    using ex_print_eval by (simp_all add: case_prod_unfold)
  from f have e: "?r = (None, snd ?r)" by (metis prod.collapse)
  have h: "cdt_port (ex_options 0) < 1024" "\<not> inspector_client ex_engine"
    "kind (ex_plan_dup PrintOperator) = PrintOperator"
    by (simp_all add: ex_options_def ex_engine_def ex_plan_dup_def)
  have n: "show_nat (unat (main_result (ex_generated [Call_read_result_set 64 2] 2))) = ''2''"
    by code_simp
  from execute_print_rows_line[OF e h] obtain io1 :: io where
    "print_out (eio (snd ?r)) = print_out io1 @ ''2 rows'' @ [CHR 0x0A]"
    unfolding n by (auto simp add: ex_options_def)
  with f o show ?thesis by blast
qed

theorem execute_noop_rows_line_witness:
  "fst (execute ex_formatters ex_storage (ex_options 0)
          (ex_generated [Call_read_result_set 64 2] 2) (ex_plan_dup NoOpOperator) ex_engine) = None
   \<and> (\<exists>io1 :: io. noop_out (eio (snd (execute ex_formatters ex_storage (ex_options 0)
          (ex_generated [Call_read_result_set 64 2] 2) (ex_plan_dup NoOpOperator) ex_engine)))
         = noop_out io1 @ ''2 rows'' @ [CHR 0x0A])
   \<and> noop_out (eio (snd (execute ex_formatters ex_storage (ex_options 0)
          (ex_generated [Call_read_result_set 64 2] 2) (ex_plan_dup NoOpOperator) ex_engine)))
       = ''2 rows'' @ [CHR 0x0A]"
proof -
  let ?r = "execute ex_formatters ex_storage (ex_options 0)
              (ex_generated [Call_read_result_set 64 2] 2) (ex_plan_dup NoOpOperator) ex_engine"
  have f: "fst ?r = None"
    and o: "noop_out (eio (snd ?r)) = ''2 rows'' @ [CHR 0x0A]"
    using ex_noop_eval by (simp_all add: case_prod_unfold)
  from f have e: "?r = (None, snd ?r)" by (metis prod.collapse)
  have h: "cdt_port (ex_options 0) < 1024" "\<not> inspector_client ex_engine"
    "kind (ex_plan_dup NoOpOperator) = NoOpOperator" "\<not> quiet (ex_options 0)"
    by (simp_all add: ex_options_def ex_engine_def ex_plan_dup_def)
  have n: "show_nat (unat (main_result (ex_generated [Call_read_result_set 64 2] 2))) = ''2''"
    by code_simp
  from execute_noop_rows_line[OF e h] obtain io1 :: io where
    "noop_out (eio (snd ?r)) = noop_out io1 @ ''2 rows'' @ [CHR 0x0A]"
    unfolding n by auto
  with f o show ?thesis by blast
qed

text \<open>
  C5, as stated, fails.  With a debugging port, \<open>execute\<close> hands the query to the inspector
  and returns when the inspector has run: it does not call \<open>main\<close> itself, has no row
  count, and writes no trailer.  A query on a print sink with the quiet option not set
  comes to its end with nothing written to the stream of the sink.
\<close>

theorem execute_print_rows_line_counterexample:
  "fst (execute ex_formatters ex_storage (ex_options 9229)
          (ex_generated [Call_read_result_set 64 2] 2) (ex_plan_dup PrintOperator) ex_engine) = None
   \<and> kind (ex_plan_dup PrintOperator) = PrintOperator
   \<and> \<not> quiet (ex_options 9229)
   \<and> print_out (eio (snd (execute ex_formatters ex_storage (ex_options 9229)
          (ex_generated [Call_read_result_set 64 2] 2) (ex_plan_dup PrintOperator) ex_engine)))
       = []
   \<and> rows_line (main_result (ex_generated [Call_read_result_set 64 2] 2)) = ''2 rows'' @ [CHR 0x0A]"
proof -
  have "rows_line (main_result (ex_generated [Call_read_result_set 64 2] 2))
          = ''2 rows'' @ [CHR 0x0A]"
    by code_simp
  with ex_inspector_print_eval show ?thesis
    by (simp add: case_prod_unfold ex_plan_dup_def ex_options_def)
qed

text \<open>
  C10, as stated, fails.  With a debugging port, \<open>execute\<close> returns when the inspector has
  run and writes no trailer: a query on a no-op sink with the quiet option not set comes
  to its end with nothing written to the stream of the no-op operator.
\<close>

theorem execute_noop_rows_line_counterexample:
  "fst (execute ex_formatters ex_storage (ex_options 9229)
          (ex_generated [Call_read_result_set 64 2] 2) (ex_plan_dup NoOpOperator) ex_engine) = None
   \<and> kind (ex_plan_dup NoOpOperator) = NoOpOperator
   \<and> \<not> quiet (ex_options 9229)
   \<and> noop_out (eio (snd (execute ex_formatters ex_storage (ex_options 9229)
          (ex_generated [Call_read_result_set 64 2] 2) (ex_plan_dup NoOpOperator) ex_engine)))
       = []
   \<and> rows_line (main_result (ex_generated [Call_read_result_set 64 2] 2)) = ''2 rows'' @ [CHR 0x0A]"
proof -
  have "rows_line (main_result (ex_generated [Call_read_result_set 64 2] 2))
          = ''2 rows'' @ [CHR 0x0A]"
    by code_simp
  with ex_inspector_noop_eval show ?thesis
    by (simp add: case_prod_unfold ex_plan_dup_def ex_options_def)
qed

section \<open>The reader on a schema of constants\<close>

lemma set_all_constants_spec:
  assumes "set_all_constants ps i es tup = Inr tup'"
  shows "length tup' = length tup
         \<and> (\<forall>j. j < i \<or> i + length es \<le> j \<longrightarrow> tup' ! j = tup ! j)
         \<and> (\<forall>k<length es. i + k < length tup \<longrightarrow>
                (if is_none (entry_ty (es ! k)) then tup' ! (i + k) = tup ! (i + k)
                 else \<exists>v. eval_projection ps (i + k) = Inr v \<and> tup' ! (i + k) = Some v))"
  using assms
proof (induction es arbitrary: i tup)
  case Nil
  then show ?case by simp
next
  case (Cons e es)
  show ?case
  proof (cases "is_none (entry_ty e)")
    case True
    with Cons.prems have r: "set_all_constants ps (Suc i) es tup = Inr tup'"
      by simp
    note ih = Cons.IH[OF r]
    show ?thesis
    proof (intro conjI allI impI)
      show "length tup' = length tup" using ih by simp
    next
      fix j assume "j < i \<or> i + length (e # es) \<le> j"
      then show "tup' ! j = tup ! j" using ih by auto
    next
      fix k assume k: "k < length (e # es)" "i + k < length tup"
      show "if is_none (entry_ty ((e # es) ! k)) then tup' ! (i + k) = tup ! (i + k)
            else \<exists>v. eval_projection ps (i + k) = Inr v \<and> tup' ! (i + k) = Some v"
      proof (cases k)
        case 0
        then show ?thesis using True ih by simp
      next
        case (Suc k')
        then have "k' < length es" "Suc i + k' < length tup" using k by simp_all
        with ih have "if is_none (entry_ty (es ! k')) then tup' ! (Suc i + k') = tup ! (Suc i + k')
            else \<exists>v. eval_projection ps (Suc i + k') = Inr v \<and> tup' ! (Suc i + k') = Some v"
          by blast
        then show ?thesis using Suc by (auto split: if_splits)
      qed
    qed
  next
    case False
    with Cons.prems obtain v where v: "eval_projection ps i = Inr v"
      and r: "set_all_constants ps (Suc i) es (tuple_set tup i v) = Inr tup'"
      by (auto simp add: err_bind_def M_insist_def split: sum.splits if_splits)
    note ih = Cons.IH[OF r]
    show ?thesis
    proof (intro conjI allI impI)
      show "length tup' = length tup" using ih by (simp add: tuple_set_def)
    next
      fix j assume "j < i \<or> i + length (e # es) \<le> j"
      then show "tup' ! j = tup ! j" using ih by (auto simp add: tuple_set_def)
    next
      fix k assume k: "k < length (e # es)" "i + k < length tup"
      show "if is_none (entry_ty ((e # es) ! k)) then tup' ! (i + k) = tup ! (i + k)
            else \<exists>v. eval_projection ps (i + k) = Inr v \<and> tup' ! (i + k) = Some v"
      proof (cases k)
        case 0
        have "tup' ! i = tuple_set tup i v ! i" using ih by simp
        then show ?thesis using 0 False v k(2) by (simp add: tuple_set_def)
      next
        case (Suc k')
        then have "k' < length es" "Suc i + k' < length (tuple_set tup i v)"
          using k by (simp_all add: tuple_set_def)
        with ih have "if is_none (entry_ty (es ! k'))
            then tup' ! (Suc i + k') = tuple_set tup i v ! (Suc i + k')
            else \<exists>v. eval_projection ps (Suc i + k') = Inr v \<and> tup' ! (Suc i + k') = Some v"
          by blast
        then show ?thesis using Suc by (auto simp add: tuple_set_def split: if_splits)
      qed
    qed
  qed
qed

lemma print_all_constants_spec:
  assumes "print_all_constants fmt ps i es acc = Inr out"
  shows "\<exists>fields. length fields = length es
           \<and> (\<forall>k<length es. \<exists>c. i + k < length ps
                  \<and> as_Constant (fst (ps ! (i + k))) = Inr c
                  \<and> print_constant fmt c (entry_ty (es ! k)) = Inr (fields ! k))
           \<and> out = acc @ csv_from i fields"
  using assms
proof (induction es arbitrary: i acc)
  case Nil
  then show ?case by simp
next
  case (Cons e es)
  from Cons.prems obtain c s where
    p: "i < length ps" "as_Constant (fst (ps ! i)) = Inr c"
       "print_constant fmt c (entry_ty e) = Inr s"
    and r: "print_all_constants fmt ps (Suc i) es
              ((if i \<noteq> 0 then acc @ '','' else acc) @ s) = Inr out"
    by (auto simp add: err_bind_def M_insist_def projection_at_def Let_def
          split: sum.splits if_splits)
  from Cons.IH[OF r] obtain fields where f: "length fields = length es"
    "\<forall>k<length es. \<exists>c. Suc i + k < length ps
          \<and> as_Constant (fst (ps ! (Suc i + k))) = Inr c
          \<and> print_constant fmt c (entry_ty (es ! k)) = Inr (fields ! k)"
    "out = ((if i \<noteq> 0 then acc @ '','' else acc) @ s) @ csv_from (Suc i) fields"
    by blast
  have "\<forall>k<length (e # es). \<exists>c. i + k < length ps
          \<and> as_Constant (fst (ps ! (i + k))) = Inr c
          \<and> print_constant fmt c (entry_ty ((e # es) ! k)) = Inr ((s # fields) ! k)"
  proof (intro allI impI)
    fix k assume "k < length (e # es)"
    then show "\<exists>c. i + k < length ps
          \<and> as_Constant (fst (ps ! (i + k))) = Inr c
          \<and> print_constant fmt c (entry_ty ((e # es) ! k)) = Inr ((s # fields) ! k)"
      using p f(2) by (cases k) auto
  qed
  moreover have "out = acc @ csv_from i (s # fields)"
    using f(3) by simp
  moreover have "length (s # fields) = length (e # es)"
    using f(1) by simp
  ultimately show ?case by blast
qed


lemma read_result_set_only_constants:
  assumes "contexts module_id = Some ctx"
    and "num_entries (drop_constants (deduplicate (schema (plan ctx)))) = 0"
    and "n \<noteq> 0"
    and "read_result_set fmt contexts module_id off n io0 = Inr io1"
  shows "\<exists>ps. find_projection (plan ctx) = Inr (Some ps)
           \<and> read_constants fmt (plan ctx) (Some ps) (unat n) io0 = Inr io1"
proof -
  from assms obtain projection where
    fp: "find_projection (plan ctx) = Inr projection"
    and rc: "read_constants fmt (plan ctx) projection (unat n) io0 = Inr io1"
    by (auto simp add: read_result_set_def Get_Wasm_Context_By_ID_def err_bind_def Let_def
          split: sum.splits if_splits)
  from rc obtain ps where "projection = Some ps"
    by (cases projection) (simp_all add: read_constants_def)
  with fp rc show ?thesis by simp
qed

text \<open>
  C2.  For every call of \<open>read_result_set\<close> that returns, on a root whose payload schema
  is empty: every entry of the root schema is a constant and nothing is read from the
  result buffer.  With a callback sink the callback receives exactly count tuples, all
  the same tuple, in which an entry of type NULL is unset and every other entry is the
  value of the constant expression at its position in the nearest projection.  With a
  print sink exactly count lines are written, all the same line: the renderings of those
  constants (\<open>NULL\<close> for an entry of type NULL), separated by commas.
\<close>

theorem read_result_set_constants:
  assumes "contexts module_id = Some ctx"
    and "num_entries (drop_constants (deduplicate (schema (plan ctx)))) = 0"
    and "read_result_set fmt contexts module_id off n io0 = Inr io1"
  shows "(\<forall>e\<in>set (schema (plan ctx)). is_constant (entry_id e))
       \<and> buffer_reads io1 = buffer_reads io0
       \<and> (kind (plan ctx) = CallbackOperator \<longrightarrow>
            (\<exists>tup. callback_rows io1 = callback_rows io0 @ replicate (unat n) tup
               \<and> print_out io1 = print_out io0
               \<and> (n \<noteq> 0 \<longrightarrow>
                    (\<exists>ps. find_projection (plan ctx) = Inr (Some ps)
                       \<and> length tup = num_entries (schema (plan ctx))
                       \<and> (\<forall>i<num_entries (schema (plan ctx)).
                             if is_none (entry_ty (schema (plan ctx) ! i)) then tup ! i = None
                             else \<exists>v. eval_projection ps i = Inr v \<and> tup ! i = Some v)))))
       \<and> (kind (plan ctx) = PrintOperator \<longrightarrow>
            (\<exists>line. print_out io1
                       = print_out io0 @ concat (replicate (unat n) (line @ [CHR 0x0A]))
               \<and> callback_rows io1 = callback_rows io0
               \<and> (n \<noteq> 0 \<longrightarrow>
                    (\<exists>ps fields. find_projection (plan ctx) = Inr (Some ps)
                       \<and> length fields = num_entries (schema (plan ctx))
                       \<and> (\<forall>i<num_entries (schema (plan ctx)).
                             \<exists>c. i < length ps \<and> as_Constant (fst (ps ! i)) = Inr c
                                \<and> print_constant fmt c (entry_ty (schema (plan ctx) ! i))
                                    = Inr (fields ! i))
                       \<and> line = csv fields))))"
proof (cases "n = 0")
  case True
  then have "io1 = io0"
    using assms(1,3)
    by (simp add: read_result_set_def Get_Wasm_Context_By_ID_def err_bind_def Let_def)
  with True show ?thesis
    using only_constants[OF assms(2)] by simp
next
  case False
  let ?s = "schema (plan ctx)"
  from read_result_set_only_constants[OF assms(1,2) False assms(3)] obtain ps where
    fp: "find_projection (plan ctx) = Inr (Some ps)"
    and rc: "read_constants fmt (plan ctx) (Some ps) (unat n) io0 = Inr io1"
    by blast
  have reads: "buffer_reads io1 = buffer_reads io0"
    using rc
    by (auto simp add: read_constants_def err_bind_def split: op_kind.splits sum.splits)
  have cb: "\<exists>tup. callback_rows io1 = callback_rows io0 @ replicate (unat n) tup
               \<and> print_out io1 = print_out io0
               \<and> length tup = num_entries ?s
               \<and> (\<forall>i<num_entries ?s.
                     if is_none (entry_ty (?s ! i)) then tup ! i = None
                     else \<exists>v. eval_projection ps i = Inr v \<and> tup ! i = Some v)"
    if k: "kind (plan ctx) = CallbackOperator"
  proof -
    from rc k obtain tup where
      t: "set_all_constants ps 0 ?s (Tuple ?s) = Inr tup"
      and o: "io1 = io0\<lparr>callback_rows := callback_rows io0 @ replicate (unat n) tup\<rparr>"
      by (auto simp add: read_constants_def err_bind_def split: sum.splits)
    from set_all_constants_spec[OF t]
    have "length tup = num_entries ?s"
      and "\<forall>i<num_entries ?s.
             if is_none (entry_ty (?s ! i)) then tup ! i = None
             else \<exists>v. eval_projection ps i = Inr v \<and> tup ! i = Some v"
      by (auto simp add: Tuple_def num_entries_def split: if_splits)
    with o show ?thesis by auto
  qed
  have pr: "\<exists>line fields. print_out io1
                       = print_out io0 @ concat (replicate (unat n) (line @ [CHR 0x0A]))
               \<and> callback_rows io1 = callback_rows io0
               \<and> length fields = num_entries ?s
               \<and> (\<forall>i<num_entries ?s.
                     \<exists>c. i < length ps \<and> as_Constant (fst (ps ! i)) = Inr c
                        \<and> print_constant fmt c (entry_ty (?s ! i)) = Inr (fields ! i))
               \<and> line = csv fields"
    if k: "kind (plan ctx) = PrintOperator"
  proof -
    from rc k obtain line where
      t: "print_all_constants fmt ps 0 ?s [] = Inr line"
      and o: "io1 = io0\<lparr>print_out :=
                 print_out io0 @ concat (replicate (unat n) (line @ [CHR 0x0A]))\<rparr>"
      by (auto simp add: read_constants_def err_bind_def split: sum.splits)
    from print_all_constants_spec[OF t] obtain fields where
      "length fields = length ?s"
      "\<forall>k<length ?s. \<exists>c. 0 + k < length ps
              \<and> as_Constant (fst (ps ! (0 + k))) = Inr c
              \<and> print_constant fmt c (entry_ty (?s ! k)) = Inr (fields ! k)"
      "line = [] @ csv_from 0 fields"
      by blast
    with o show ?thesis by (auto simp add: num_entries_def csv_def)
  qed
  show ?thesis
    using only_constants[OF assms(2)] reads fp cb pr False by blast
qed


lemma ex_constants_callback_eval:
  "read_result_set ex_formatters [0 \<mapsto> ex_context (ex_plan_constants CallbackOperator)] 0 0 3 ex_io
     = Inr \<lparr>callback_rows = [[Some (V_i 1), Some (V_p ''x''), None],
                               [Some (V_i 1), Some (V_p ''x''), None],
                               [Some (V_i 1), Some (V_p ''x''), None]],
            print_out = [], noop_out = [], buffer_reads = []\<rparr>"
  by code_simp

lemma ex_constants_print_eval:
  "read_result_set ex_formatters [0 \<mapsto> ex_context (ex_plan_constants PrintOperator)] 0 0 3 ex_io
     = Inr \<lparr>callback_rows = [],
            print_out = concat (replicate 3 (''1,'' @ [CHR 0x22] @ ''x'' @ [CHR 0x22] @ '',NULL''
                                             @ [CHR 0x0A])),
            noop_out = [], buffer_reads = []\<rparr>"
  by code_simp

lemma ex_constants_payload:
  "num_entries (drop_constants (deduplicate (schema (plan (ex_context (ex_plan_constants k)))))) = 0"
  by (simp add: ex_context_def ex_plan_constants_def deduplicate_def drop_constants_def has_def
        ex_const_def num_entries_def)

theorem read_result_set_constants_witness:
  "read_result_set ex_formatters [0 \<mapsto> ex_context (ex_plan_constants CallbackOperator)] 0 0 3 ex_io
     = Inr \<lparr>callback_rows = [[Some (V_i 1), Some (V_p ''x''), None],
                               [Some (V_i 1), Some (V_p ''x''), None],
                               [Some (V_i 1), Some (V_p ''x''), None]],
            print_out = [], noop_out = [], buffer_reads = []\<rparr>
   \<and> read_result_set ex_formatters [0 \<mapsto> ex_context (ex_plan_constants PrintOperator)] 0 0 3 ex_io
     = Inr \<lparr>callback_rows = [],
            print_out = concat (replicate 3 (''1,'' @ [CHR 0x22] @ ''x'' @ [CHR 0x22] @ '',NULL''
                                             @ [CHR 0x0A])),
            noop_out = [], buffer_reads = []\<rparr>
   \<and> (\<exists>tup. [[Some (V_i 1), Some (V_p ''x''), None], [Some (V_i 1), Some (V_p ''x''), None],
               [Some (V_i 1), Some (V_p ''x''), None]] = replicate 3 tup
            \<and> tup ! 2 = None)
   \<and> (\<exists>line. concat (replicate 3 (''1,'' @ [CHR 0x22] @ ''x'' @ [CHR 0x22] @ '',NULL'' @ [CHR 0x0A]))
              = concat (replicate 3 (line @ [CHR 0x0A])))"
proof -
  have c: "[0 \<mapsto> ex_context (ex_plan_constants CallbackOperator)] 0
             = Some (ex_context (ex_plan_constants CallbackOperator))"
    and p: "[0 \<mapsto> ex_context (ex_plan_constants PrintOperator)] 0
             = Some (ex_context (ex_plan_constants PrintOperator))"
    by simp_all
  have kc: "kind (plan (ex_context (ex_plan_constants CallbackOperator))) = CallbackOperator"
    and kp: "kind (plan (ex_context (ex_plan_constants PrintOperator))) = PrintOperator"
    by (simp_all add: ex_context_def ex_plan_constants_def)
  have t2: "is_none (entry_ty (schema (plan (ex_context (ex_plan_constants CallbackOperator))) ! 2))"
    "2 < num_entries (schema (plan (ex_context (ex_plan_constants CallbackOperator))))"
    by (simp_all add: ex_context_def ex_plan_constants_def is_none_def num_entries_def)
  have u: "unat (3 :: 32 word) = 3" "(3 :: 32 word) \<noteq> 0"
    by simp_all
  from read_result_set_constants[OF c ex_constants_payload ex_constants_callback_eval] kc t2 u
  have a: "\<exists>tup. [[Some (V_i 1), Some (V_p ''x''), None], [Some (V_i 1), Some (V_p ''x''), None],
               [Some (V_i 1), Some (V_p ''x''), None]] = replicate 3 tup \<and> tup ! 2 = None"
    by (auto simp add: ex_io_def)
  from read_result_set_constants[OF p ex_constants_payload ex_constants_print_eval] kp u
  have b: "\<exists>line. concat (replicate 3 (''1,'' @ [CHR 0x22] @ ''x'' @ [CHR 0x22] @ '',NULL'' @ [CHR 0x0A]))
              = concat (replicate 3 (line @ [CHR 0x0A]))"
    by (auto simp add: ex_io_def)
  from a b ex_constants_callback_eval ex_constants_print_eval show ?thesis
    by blast
qed

section \<open>Rows of a deduplicated schema\<close>









end
